theory Spec2Isabelle
  imports Main "HOL-Library.Word" "HOL-Library.Monad_Syntax"
begin

section \<open>Data model of \<^verbatim>\<open>src/index.ts\<close>\<close>

text \<open>
  The script moves call data around as hex strings (\<^verbatim>\<open>`0x${string}`\<close>) and
  structured arguments as the objects the ABI of \<^verbatim>\<open>send\<close> describes
  (\<^verbatim>\<open>STARGATE_SEND_ABI\<close>, lines 6-62). The structured values are modelled by their ABI
  types: \<^verbatim>\<open>uint32\<close>, \<^verbatim>\<open>uint256\<close>, \<^verbatim>\<open>bytes32\<close> and \<^verbatim>\<open>address\<close> as words of
  32, 256, 256 and 160 bits, \<^verbatim>\<open>bytes\<close> as byte lists. Console output is not modelled.
\<close>

type_synonym byte = "8 word"
type_synonym uint32 = "32 word"
type_synonym uint256 = "256 word"
type_synonym bytes32 = "256 word"
type_synonym address = "160 word"

text \<open>The tuple \<^verbatim>\<open>_sendParam\<close> (lines 11-23).\<close>

record SendParam =
  dstEid :: uint32
  to :: bytes32
  amountLD :: uint256
  minAmountLD :: uint256
  extraOptions :: "byte list"
  composeMsg :: "byte list"
  oftCmd :: "byte list"

text \<open>The tuple \<^verbatim>\<open>_fee\<close> (lines 24-31).\<close>

record MessagingFee =
  nativeFee :: uint256
  lzTokenFee :: uint256

text \<open>The object returned by \<^verbatim>\<open>decodeStargateCalldata\<close> (lines 160-175).\<close>

record Decoded =
  sendParam :: SendParam
  fee :: MessagingFee
  refundAddress :: address

type_synonym send_args = "SendParam \<times> MessagingFee \<times> address"

text \<open>
  What \<^verbatim>\<open>decodeFunctionData\<close> can throw, named as the specification names the two
  decoding failures.
\<close>

datatype decode_error = SelectorMismatch | Malformed

text \<open>
  The errors of the script: the \<^verbatim>\<open>Error\<close> built at lines 177-179 around the message
  of the decoding failure, the one thrown at line 284, and whatever an external
  collaborator (ledger client, \<^verbatim>\<open>BigInt\<close>) throws, kept as its message.
\<close>

datatype error =
  FailedToDecodeCalldata decode_error
  | NoStargateRoutes
  | External string

text \<open>
  The two functions of the viem library the codec wrappers call. They are not part of
  the repository, so the wrappers take them as a parameter.
\<close>

record codec =
  decodeFunctionData :: "string \<Rightarrow> decode_error + send_args"
  encodeFunctionData :: "send_args \<Rightarrow> string"

section \<open>The codec wrappers\<close>

text \<open>\<^verbatim>\<open>decodeStargateCalldata\<close>, lines 153-181: every failure of the library call is
  caught and rethrown as one \<^verbatim>\<open>Error\<close> carrying the cause.\<close>

definition decodeStargateCalldata :: "codec \<Rightarrow> string \<Rightarrow> error + Decoded" where
  "decodeStargateCalldata c calldata =
     (case decodeFunctionData c calldata of
        Inl e \<Rightarrow> Inl (FailedToDecodeCalldata e)
      | Inr (a0, a1, a2) \<Rightarrow> Inr \<lparr>sendParam = a0, fee = a1, refundAddress = a2\<rparr>)"

text \<open>\<^verbatim>\<open>encodeStargateCalldata\<close>, lines 186-207.\<close>

definition encodeStargateCalldata :: "codec \<Rightarrow> SendParam \<Rightarrow> MessagingFee \<Rightarrow> address \<Rightarrow> string" where
  "encodeStargateCalldata c sp f r = encodeFunctionData c (sp, f, r)"

section \<open>The wire format\<close>

text \<open>
  Modelled from the spec: the encoding and decoding that viem performs for
  \<^verbatim>\<open>STARGATE_SEND_ABI\<close> are not in the sources. This section writes them out from the
  wire format of the specification (section 6), on bytes; call data travels as the hex
  text of those bytes.
\<close>

subsection \<open>Hex strings\<close>

definition hexDigit :: "nat \<Rightarrow> char" where
  "hexDigit n = ''0123456789abcdef'' ! n"

definition hexVal :: "char \<Rightarrow> nat option" where
  "hexVal ch =
     (let n = (of_char ch :: nat) in
      if 48 \<le> n \<and> n \<le> 57 then Some (n - 48)
      else if 97 \<le> n \<and> n \<le> 102 then Some (n - 87)
      else if 65 \<le> n \<and> n \<le> 70 then Some (n - 55)
      else None)"

fun toHexDigits :: "byte list \<Rightarrow> string" where
  "toHexDigits [] = []"
| "toHexDigits (b # bs) = hexDigit (unat b div 16) # hexDigit (unat b mod 16) # toHexDigits bs"

fun fromHexDigits :: "string \<Rightarrow> byte list option" where
  "fromHexDigits [] = Some []"
| "fromHexDigits [ch] = None"
| "fromHexDigits (hi # lo # rest) =
     (case (hexVal hi, hexVal lo, fromHexDigits rest) of
        (Some h, Some l, Some bs) \<Rightarrow> Some (of_nat (16 * h + l) # bs)
      | _ \<Rightarrow> None)"

definition bytesToHex :: "byte list \<Rightarrow> string" where
  "bytesToHex bs = ''0x'' @ toHexDigits bs"

definition hexToBytes :: "string \<Rightarrow> byte list option" where
  "hexToBytes s = (if take 2 s = ''0x'' then fromHexDigits (drop 2 s) else None)"

subsection \<open>Words\<close>

text \<open>An unsigned integer, big-endian, on \<open>n\<close> bytes.\<close>

fun be_bytes :: "nat \<Rightarrow> nat \<Rightarrow> byte list" where
  "be_bytes 0 v = []"
| "be_bytes (Suc n) v = be_bytes n (v div 256) @ [of_nat (v mod 256)]"

definition be_nat :: "byte list \<Rightarrow> nat" where
  "be_nat bs = foldl (\<lambda>a b. a * 256 + unat b) 0 bs"

definition abi_word :: "nat \<Rightarrow> byte list" where
  "abi_word v = be_bytes 32 v"

text \<open>A \<^verbatim>\<open>bytes\<close> value: its length on one word, then the bytes, right-padded with
  zeros to a multiple of 32.\<close>

definition pad_len :: "nat \<Rightarrow> nat" where
  "pad_len n = (32 - n mod 32) mod 32"

definition abi_bytes :: "byte list \<Rightarrow> byte list" where
  "abi_bytes bs = abi_word (length bs) @ bs @ replicate (pad_len (length bs)) 0"

subsection \<open>Encoding\<close>

definition send_selector :: "byte list" where
  "send_selector = [0xc7, 0xc7, 0xf5, 0xb3]"

text \<open>The 7-field tuple: seven head words, the last three being the offsets of the
  three byte strings from the start of the tuple, then the three byte strings.\<close>

definition encodeSendParam :: "SendParam \<Rightarrow> byte list" where
  "encodeSendParam sp =
     (let e1 = abi_bytes (extraOptions sp);
          e2 = abi_bytes (composeMsg sp);
          e3 = abi_bytes (oftCmd sp);
          o1 = 7 * 32;
          o2 = o1 + length e1;
          o3 = o2 + length e2
      in abi_word (unat (dstEid sp)) @ abi_word (unat (to sp)) @
         abi_word (unat (amountLD sp)) @ abi_word (unat (minAmountLD sp)) @
         abi_word o1 @ abi_word o2 @ abi_word o3 @ e1 @ e2 @ e3)"

text \<open>The three arguments: the head holds the offset of the dynamic tuple (four
  words in), the two fee words and the address word; the tuple follows.\<close>

definition encodeAbiParameters :: "send_args \<Rightarrow> byte list" where
  "encodeAbiParameters args =
     (case args of (sp, f, r) \<Rightarrow>
        abi_word (4 * 32) @ abi_word (unat (nativeFee f)) @ abi_word (unat (lzTokenFee f)) @
        abi_word (unat r) @ encodeSendParam sp)"

subsection \<open>Decoding\<close>

definition readWord :: "byte list \<Rightarrow> nat \<Rightarrow> nat option" where
  "readWord bs pos =
     (if pos + 32 \<le> length bs then Some (be_nat (take 32 (drop pos bs))) else None)"

definition readBytes :: "byte list \<Rightarrow> nat \<Rightarrow> byte list option" where
  "readBytes bs pos =
     (case readWord bs pos of
        None \<Rightarrow> None
      | Some n \<Rightarrow> if pos + 32 + n \<le> length bs then Some (take n (drop (pos + 32) bs)) else None)"

definition decodeSendParam :: "byte list \<Rightarrow> nat \<Rightarrow> SendParam option" where
  "decodeSendParam bs base = do {
     eid \<leftarrow> readWord bs base;
     recipient \<leftarrow> readWord bs (base + 32);
     amount \<leftarrow> readWord bs (base + 64);
     minAmount \<leftarrow> readWord bs (base + 96);
     o1 \<leftarrow> readWord bs (base + 128);
     o2 \<leftarrow> readWord bs (base + 160);
     o3 \<leftarrow> readWord bs (base + 192);
     b1 \<leftarrow> readBytes bs (base + o1);
     b2 \<leftarrow> readBytes bs (base + o2);
     b3 \<leftarrow> readBytes bs (base + o3);
     if eid < 2 ^ 32
     then Some \<lparr>dstEid = of_nat eid, to = of_nat recipient, amountLD = of_nat amount,
                minAmountLD = of_nat minAmount, extraOptions = b1, composeMsg = b2, oftCmd = b3\<rparr>
     else None
   }"

definition decodeAbiParameters :: "byte list \<Rightarrow> send_args option" where
  "decodeAbiParameters bs = do {
     off \<leftarrow> readWord bs 0;
     nat_fee \<leftarrow> readWord bs 32;
     lz_fee \<leftarrow> readWord bs 64;
     refund \<leftarrow> readWord bs 96;
     sp \<leftarrow> decodeSendParam bs off;
     if refund < 2 ^ 160
     then Some (sp, \<lparr>nativeFee = of_nat nat_fee, lzTokenFee = of_nat lz_fee\<rparr>, of_nat refund)
     else None
   }"

text \<open>
  Modelled from the spec: \<^verbatim>\<open>decodeFunctionData\<close> of viem for the function
  \<^verbatim>\<open>send\<close>, missing from the sources. It follows the wire format of the specification
  (section 6): the 4-byte discriminator, the dynamic 7-field tuple, the 2-field tuple and
  the address, every integer big-endian on a 32-byte word, every byte string
  length-prefixed and right-padded. Decoding rejects a wrong discriminator with
  \<open>SelectorMismatch\<close>, and text that is not hex, a read beyond the data or a nonzero
  left padding with \<open>Malformed\<close> (section 4.1).
\<close>

definition viem_decodeFunctionData :: "string \<Rightarrow> decode_error + send_args" where
  "viem_decodeFunctionData calldata =
     (if take 10 calldata \<noteq> ''0xc7c7f5b3'' then Inl SelectorMismatch
      else case hexToBytes calldata of
             None \<Rightarrow> Inl Malformed
           | Some bs \<Rightarrow>
               (case decodeAbiParameters (drop 4 bs) of
                  None \<Rightarrow> Inl Malformed
                | Some args \<Rightarrow> Inr args))"

text \<open>
  Modelled from the spec: \<^verbatim>\<open>encodeFunctionData\<close> of viem for the function
  \<^verbatim>\<open>send\<close>, missing from the sources: the discriminator followed by the encoded
  arguments, as hex text. It never fails.
\<close>

definition viem_encodeFunctionData :: "send_args \<Rightarrow> string" where
  "viem_encodeFunctionData args = bytesToHex (send_selector @ encodeAbiParameters args)"

text \<open>
  Modelled from the spec: the codec library as the specification describes it, made of
  the two functions above.
\<close>

definition viem :: codec where
  "viem = \<lparr>decodeFunctionData = viem_decodeFunctionData,
           encodeFunctionData = viem_encodeFunctionData\<rparr>"

text \<open>A triple is well formed when the lengths and offsets of its byte strings fit the
  256-bit words that carry them.\<close>

definition well_formed :: "SendParam \<Rightarrow> bool" where
  "well_formed sp \<longleftrightarrow>
     7 * 32 + length (abi_bytes (extraOptions sp)) + length (abi_bytes (composeMsg sp))
       + length (abi_bytes (oftCmd sp)) < 2 ^ 256"

definition fits256 :: "nat \<Rightarrow> bool" where
  "fits256 v \<longleftrightarrow> v < 2 ^ 256"

section \<open>Routes, steps and the ledger client\<close>

text \<open>The \<^verbatim>\<open>transaction\<close> object of a step (lines 85-90).\<close>

record transaction =
  tx_data :: string
  tx_to :: string
  tx_value :: string
  tx_from :: string

text \<open>One element of \<^verbatim>\<open>steps\<close> (lines 81-91).\<close>

record step =
  stepType :: string
  sender :: string
  chainKey :: string
  transaction :: transaction

text \<open>One element of \<^verbatim>\<open>fees\<close> (lines 75-80).\<close>

record feeItem =
  feeToken :: string
  feeChainKey :: string
  feeAmount :: string
  feeType :: string

text \<open>\<^verbatim>\<open>StargateQuote\<close> (lines 64-92).\<close>

record StargateQuote =
  route :: string
  quoteError :: "string option"
  srcAmount :: string
  dstAmount :: string
  srcToken :: string
  dstToken :: string
  srcAddress :: string
  dstAddress :: string
  srcChainKey :: string
  dstChainKey :: string
  fees :: "feeItem list"
  steps :: "step list"

text \<open>The argument of \<^verbatim>\<open>client.sendTransaction\<close>: the approval call passes no
  \<^verbatim>\<open>value\<close> (lines 320-323), the transfer call does (lines 408-412).\<close>

record TransactionRequest =
  req_to :: string
  req_value :: "int option"
  req_data :: string

record TransactionReceipt =
  status :: string

text \<open>The calls made to the ledger client, in order.\<close>

datatype event =
  SendTransaction TransactionRequest
  | WaitForTransactionReceipt string

text \<open>
  The ledger client is external. Each of its two calls returns a result or throws, and
  may depend on everything that was asked of it before.
\<close>

record client =
  sendTransaction :: "event list \<Rightarrow> TransactionRequest \<Rightarrow> error + string"
  waitForTransactionReceipt :: "event list \<Rightarrow> string \<Rightarrow> error + TransactionReceipt"

text \<open>What \<^verbatim>\<open>main\<close> runs in: the codec library, the ledger client and the builtin
  \<^verbatim>\<open>BigInt\<close>, which throws on text that is not an integer.\<close>

record env =
  codec :: codec
  client :: client
  bigInt :: "string \<Rightarrow> error + int"

text \<open>How the body of the loop over the routes ends when it does not throw:
  \<^verbatim>\<open>continue\<close> at line 339, \<^verbatim>\<open>continue\<close> at line 437, \<^verbatim>\<open>break\<close> at line 425.\<close>

datatype route_outcome =
  SkippedNoTransfer
  | RouteFailed error
  | Confirmed string TransactionReceipt

text \<open>How the loop itself ends: the routes ran out, \<^verbatim>\<open>break\<close>, or an exception left it.\<close>

datatype loop_exit = Exhausted | Broke | Threw error

record run_result =
  events :: "event list"
  outcomes :: "(string \<times> route_outcome) list"
  failure :: "error option"
  exitCode :: nat

section \<open>The orchestration in \<^verbatim>\<open>main\<close>\<close>

text \<open>Line 227.\<close>

definition customRefundAddress :: address where
  "customRefundAddress = 0xdeadbeefdeadbeefdeadbeefdeadbeefdeadbeef"

text \<open>The classification loop, lines 296-312. The accumulator is
  \<^verbatim>\<open>(approvalStep, sendStep, sendStepIndex)\<close>; each matching step overwrites it.
  \<^verbatim>\<open>StargateQuote\<close> types the call data of a step as a string; the test
  \<^verbatim>\<open>if (txData)\<close> fails on the empty one.\<close>

fun classifyLoop ::
  "step list \<Rightarrow> nat \<Rightarrow> step option \<times> step option \<times> int \<Rightarrow> step option \<times> step option \<times> int" where
  "classifyLoop [] i acc = acc"
| "classifyLoop (s # ss) i (approvalStep, sendStep, sendStepIndex) =
     (let txData = tx_data (transaction s) in
      classifyLoop ss (i + 1)
        (if txData \<noteq> [] then
           (let functionSelector = take 10 txData in
            if functionSelector = ''0x095ea7b3'' then (Some s, sendStep, sendStepIndex)
            else if functionSelector = ''0xc7c7f5b3'' then (approvalStep, Some s, int i)
            else (approvalStep, sendStep, sendStepIndex))
         else (approvalStep, sendStep, sendStepIndex)))"

definition classify :: "step list \<Rightarrow> step option \<times> step option \<times> int" where
  "classify ss = classifyLoop ss 0 (None, None, - 1)"

text \<open>Lines 315-330: the approval, outside every \<^verbatim>\<open>try\<close> of the loop body. The
  request holds the target and the call data of the step and nothing else (lines 320-323).\<close>

definition approvalRequest :: "step \<Rightarrow> TransactionRequest" where
  "approvalRequest approvalStep =
     \<lparr>req_to = tx_to (transaction approvalStep), req_value = None,
      req_data = tx_data (transaction approvalStep)\<rparr>"

definition handleApproval :: "client \<Rightarrow> event list \<Rightarrow> step option \<Rightarrow> event list \<times> (error + unit)" where
  "handleApproval cl log approvalStep =
     (case approvalStep of
        None \<Rightarrow> (log, Inr ())
      | Some a \<Rightarrow>
          (let req = approvalRequest a;
               log1 = log @ [SendTransaction req]
           in case sendTransaction cl log req of
                Inl e \<Rightarrow> (log1, Inl e)
              | Inr approvalHash \<Rightarrow>
                  (let log2 = log1 @ [WaitForTransactionReceipt approvalHash]
                   in case waitForTransactionReceipt cl log1 approvalHash of
                        Inl e \<Rightarrow> (log2, Inl e)
                      | Inr receipt \<Rightarrow> (log2, Inr ()))))"

text \<open>Lines 344-403: decode, override the refund address, encode, decode again, read
  the value. The second decoding is only printed.\<close>

definition buildTransaction :: "env \<Rightarrow> step \<Rightarrow> error + TransactionRequest" where
  "buildTransaction ev sendStep =
     (case decodeStargateCalldata (codec ev) (tx_data (transaction sendStep)) of
        Inl e \<Rightarrow> Inl e
      | Inr decoded \<Rightarrow>
          (let newCalldata = encodeStargateCalldata (codec ev) (sendParam decoded) (fee decoded)
                               customRefundAddress
           in case decodeStargateCalldata (codec ev) newCalldata of
                Inl e \<Rightarrow> Inl e
              | Inr verifyDecoded \<Rightarrow>
                  (case bigInt ev (tx_value (transaction sendStep)) of
                     Inl e \<Rightarrow> Inl e
                   | Inr txValue \<Rightarrow>
                       Inr \<lparr>req_to = tx_to (transaction sendStep), req_value = Some txValue,
                            req_data = newCalldata\<rparr>)))"

text \<open>Lines 407-438: the \<^verbatim>\<open>try\<close> around sending and awaiting the transfer.\<close>

definition submitTransfer :: "client \<Rightarrow> event list \<Rightarrow> TransactionRequest \<Rightarrow> event list \<times> route_outcome" where
  "submitTransfer cl log req =
     (let log1 = log @ [SendTransaction req]
      in case sendTransaction cl log req of
           Inl txError \<Rightarrow> (log1, RouteFailed txError)
         | Inr hash \<Rightarrow>
             (let log2 = log1 @ [WaitForTransactionReceipt hash]
              in case waitForTransactionReceipt cl log1 hash of
                   Inl txError \<Rightarrow> (log2, RouteFailed txError)
                 | Inr receipt \<Rightarrow> (log2, Confirmed hash receipt)))"

text \<open>The body of the loop, lines 291-438. \<open>Inl\<close> is an exception leaving the body.\<close>

definition processRoute :: "env \<Rightarrow> event list \<Rightarrow> StargateQuote \<Rightarrow> event list \<times> (error + route_outcome)" where
  "processRoute ev log quote =
     (case classify (steps quote) of
        (approvalStep, sendStep, sendStepIndex) \<Rightarrow>
          (case handleApproval (client ev) log approvalStep of
             (log1, Inl e) \<Rightarrow> (log1, Inl e)
           | (log1, Inr u) \<Rightarrow>
               (case sendStep of
                  None \<Rightarrow> (log1, Inr SkippedNoTransfer)
                | Some s \<Rightarrow>
                    (case buildTransaction ev s of
                       Inl e \<Rightarrow> (log1, Inl e)
                     | Inr req \<Rightarrow>
                         (case submitTransfer (client ev) log1 req of
                            (log2, outcome) \<Rightarrow> (log2, Inr outcome))))))"

text \<open>The loop, line 290.\<close>

fun processRoutes ::
  "env \<Rightarrow> event list \<Rightarrow> StargateQuote list \<Rightarrow> event list \<times> (string \<times> route_outcome) list \<times> loop_exit" where
  "processRoutes ev log [] = (log, [], Exhausted)"
| "processRoutes ev log (quote # rest) =
     (case processRoute ev log quote of
        (log1, Inl e) \<Rightarrow> (log1, [], Threw e)
      | (log1, Inr outcome) \<Rightarrow>
          (case outcome of
             Confirmed hash receipt \<Rightarrow> (log1, [(route quote, outcome)], Broke)
           | _ \<Rightarrow>
               (case processRoutes ev log1 rest of
                  (log2, others, ex) \<Rightarrow> (log2, (route quote, outcome) # others, ex))))"

text \<open>Line 280-282.\<close>

definition isStargateRoute :: "StargateQuote \<Rightarrow> bool" where
  "isStargateRoute q \<longleftrightarrow> take 9 (route q) = ''stargate/''"

text \<open>\<^verbatim>\<open>main\<close> from line 279 on, given the quotes the fetch returned: the filter, the
  loop, and the handler of lines 442-452 that exits with code 1 on any exception.\<close>

definition main :: "env \<Rightarrow> StargateQuote list \<Rightarrow> run_result" where
  "main ev quotes =
     (let stargateQuotes = filter isStargateRoute quotes
      in if stargateQuotes = []
         then \<lparr>events = [], outcomes = [], failure = Some NoStargateRoutes, exitCode = 1\<rparr>
         else (case processRoutes ev [] stargateQuotes of
                 (log, ocs, Threw e) \<Rightarrow>
                   \<lparr>events = log, outcomes = ocs, failure = Some e, exitCode = 1\<rparr>
               | (log, ocs, ex) \<Rightarrow>
                   \<lparr>events = log, outcomes = ocs, failure = None, exitCode = 0\<rparr>))"

section \<open>Classification, as a specification\<close>

definition isApprovalStep :: "step \<Rightarrow> bool" where
  "isApprovalStep s \<longleftrightarrow> take 10 (tx_data (transaction s)) = ''0x095ea7b3''"

definition isSendStep :: "step \<Rightarrow> bool" where
  "isSendStep s \<longleftrightarrow> take 10 (tx_data (transaction s)) = ''0xc7c7f5b3''"

text \<open>The first step from position \<open>i\<close> on that satisfies \<open>P\<close>, with its index: the
  first-match rule in the words of the specification.\<close>

fun firstMatch :: "(step \<Rightarrow> bool) \<Rightarrow> nat \<Rightarrow> step list \<Rightarrow> (step \<times> nat) option" where
  "firstMatch P i [] = None"
| "firstMatch P i (s # ss) = (if P s then Some (s, i) else firstMatch P (i + 1) ss)"

text \<open>The last step that satisfies \<open>P\<close>, with its index: a match further down the
  list is preferred.\<close>

fun lastMatch :: "(step \<Rightarrow> bool) \<Rightarrow> nat \<Rightarrow> step list \<Rightarrow> (step \<times> nat) option" where
  "lastMatch P i [] = None"
| "lastMatch P i (s # ss) =
     (case lastMatch P (i + 1) ss of
        Some m \<Rightarrow> Some m
      | None \<Rightarrow> if P s then Some (s, i) else None)"

text \<open>The result of a classification rule, in the shape \<open>classify\<close> returns.\<close>

definition classifiedBy ::
  "((step \<Rightarrow> bool) \<Rightarrow> nat \<Rightarrow> step list \<Rightarrow> (step \<times> nat) option) \<Rightarrow> step list
     \<Rightarrow> step option \<times> step option \<times> int" where
  "classifiedBy rule ss =
     (map_option fst (rule isApprovalStep 0 ss),
      map_option fst (rule isSendStep 0 ss),
      (case rule isSendStep 0 ss of None \<Rightarrow> - 1 | Some m \<Rightarrow> int (snd m)))"

section \<open>Scenarios\<close>

text \<open>A transfer with every integer at its maximum and every byte string empty.\<close>

definition maxSendParam :: SendParam where
  "maxSendParam = \<lparr>dstEid = - 1, to = - 1, amountLD = - 1, minAmountLD = - 1,
                    extraOptions = [], composeMsg = [], oftCmd = []\<rparr>"

definition maxFee :: MessagingFee where
  "maxFee = \<lparr>nativeFee = - 1, lzTokenFee = - 1\<rparr>"

text \<open>Steps and routes with the fields the orchestration does not read filled in.\<close>

definition mkStep :: "string \<Rightarrow> string \<Rightarrow> string \<Rightarrow> string \<Rightarrow> step" where
  "mkStep ty d target v =
     \<lparr>stepType = ty, sender = ''0xsender'', chainKey = ''base'',
      transaction = \<lparr>tx_data = d, tx_to = target, tx_value = v, tx_from = ''0xsender''\<rparr>\<rparr>"

definition mkQuote :: "string \<Rightarrow> step list \<Rightarrow> StargateQuote" where
  "mkQuote name ss =
     \<lparr>route = name, quoteError = None, srcAmount = ''1000000'', dstAmount = ''999000'',
      srcToken = ''0xusdc-base'', dstToken = ''0xusdc-arb'', srcAddress = ''0xsender'',
      dstAddress = ''0xsender'', srcChainKey = ''base'', dstChainKey = ''arbitrum'',
      fees = [], steps = ss\<rparr>"

text \<open>The steps \<open>[A(approve), B(unrelated), C(transfer), D(transfer)]\<close> of the
  specification's classification example.\<close>

definition stepA :: step where
  "stepA = mkStep ''approve'' ''0x095ea7b300'' ''0xtoken'' ''0''"

definition stepB :: step where
  "stepB = mkStep ''other'' ''0xa9059cbb00'' ''0xtoken'' ''0''"

definition stepC :: step where
  "stepC = mkStep ''bridge'' ''0xc7c7f5b301'' ''0xpoolC'' ''5''"

definition stepD :: step where
  "stepD = mkStep ''bridge'' ''0xc7c7f5b302'' ''0xpoolD'' ''7''"

text \<open>A \<^verbatim>\<open>BigInt\<close> for the scenarios: it reads decimal digits and throws on anything
  else.\<close>

fun digitsToInt :: "int \<Rightarrow> string \<Rightarrow> int option" where
  "digitsToInt acc [] = Some acc"
| "digitsToInt acc (ch # cs) =
     (let n = (of_char ch :: nat) in
      if 48 \<le> n \<and> n \<le> 57 then digitsToInt (10 * acc + int (n - 48)) cs else None)"

definition decimalBigInt :: "string \<Rightarrow> error + int" where
  "decimalBigInt s =
     (case digitsToInt 0 s of None \<Rightarrow> Inl (External ''SyntaxError'') | Some v \<Rightarrow> Inr v)"

text \<open>The quoted transfer of the end-to-end scenario: refund address \<open>0x1111\<dots>\<close>.\<close>

definition quotedParam :: SendParam where
  "quotedParam = \<lparr>dstEid = 30110, to = 0x1234, amountLD = 1000000, minAmountLD = 950000,
                   extraOptions = [0x00, 0x03], composeMsg = [], oftCmd = [0x01]\<rparr>"

definition quotedFee :: MessagingFee where
  "quotedFee = \<lparr>nativeFee = 42000, lzTokenFee = 0\<rparr>"

definition quotedRefund :: address where
  "quotedRefund = 0x1111111111111111111111111111111111111111"

definition quotedCalldata :: string where
  "quotedCalldata = encodeStargateCalldata viem quotedParam quotedFee quotedRefund"

definition overriddenCalldata :: string where
  "overriddenCalldata = encodeStargateCalldata viem quotedParam quotedFee customRefundAddress"

definition transferRequest :: "string \<Rightarrow> TransactionRequest" where
  "transferRequest target =
     \<lparr>req_to = target, req_value = Some 42000, req_data = overriddenCalldata\<rparr>"

definition approveStep :: step where
  "approveStep = mkStep ''approve'' ''0x095ea7b3ffff'' ''0xtoken'' ''9''"

definition route1 :: StargateQuote where
  "route1 = mkQuote ''stargate/v2/taxi'' [approveStep, mkStep ''bridge'' quotedCalldata ''0xpool1'' ''42000'']"

definition route2 :: StargateQuote where
  "route2 = mkQuote ''stargate/v2/bus'' [mkStep ''bridge'' quotedCalldata ''0xpool2'' ''42000'']"

definition route3 :: StargateQuote where
  "route3 = mkQuote ''stargate/v2/oft'' [mkStep ''bridge'' quotedCalldata ''0xpool3'' ''42000'']"

text \<open>The ledger calls of the scenario up to the failed transfer of the first route.\<close>

definition scenarioLog1 :: "event list" where
  "scenarioLog1 = [SendTransaction (approvalRequest approveStep), WaitForTransactionReceipt ''0xhash'',
                   SendTransaction (transferRequest ''0xpool1'')]"

text \<open>The ledger calls of a confirmed approval of \<open>approveStep\<close>.\<close>

definition approvalLog :: "event list" where
  "approvalLog = [SendTransaction (approvalRequest approveStep), WaitForTransactionReceipt ''0xhash'']"

text \<open>A route with an approval and no transfer, and one whose transfer call data has
  the right discriminator and nothing behind it.\<close>

definition approveOnlyRoute :: StargateQuote where
  "approveOnlyRoute = mkQuote ''stargate/v2/approve-only'' [approveStep]"

definition truncatedRoute :: StargateQuote where
  "truncatedRoute = mkQuote ''stargate/v2/truncated'' [mkStep ''bridge'' ''0xc7c7f5b3'' ''0xpool0'' ''0'']"

text \<open>Ledger clients: one that accepts everything, one whose network fails for the
  transaction sent to \<open>0xpool1\<close>, one that rejects every approval (a request without
  value), one whose confirmation of an approval fails.\<close>

definition okReceipt :: TransactionReceipt where
  "okReceipt = \<lparr>status = ''success''\<rparr>"

definition okClient :: client where
  "okClient = \<lparr>sendTransaction = (\<lambda>log req. Inr ''0xhash''),
                waitForTransactionReceipt = (\<lambda>log h. Inr okReceipt)\<rparr>"

definition scenarioClient :: client where
  "scenarioClient =
     \<lparr>sendTransaction = (\<lambda>log req. if req_to req = ''0xpool1''
                                      then Inl (External ''network error'') else Inr ''0xhash''),
      waitForTransactionReceipt = (\<lambda>log h. Inr okReceipt)\<rparr>"

definition rejectingClient :: client where
  "rejectingClient =
     \<lparr>sendTransaction = (\<lambda>log req. if req_value req = None
                                      then Inl (External ''approval rejected'') else Inr ''0xhash''),
      waitForTransactionReceipt = (\<lambda>log h. Inr okReceipt)\<rparr>"

definition okEnv :: env where
  "okEnv = \<lparr>codec = viem, client = okClient, bigInt = decimalBigInt\<rparr>"

definition scenarioEnv :: env where
  "scenarioEnv = \<lparr>codec = viem, client = scenarioClient, bigInt = decimalBigInt\<rparr>"

definition rejectingEnv :: env where
  "rejectingEnv = \<lparr>codec = viem, client = rejectingClient, bigInt = decimalBigInt\<rparr>"

text \<open>A codec that contradicts itself: whatever it encoded, it decodes the result to
  another refund address and other fees than were encoded.\<close>

definition inconsistentCodec :: codec where
  "inconsistentCodec =
     \<lparr>decodeFunctionData = (\<lambda>calldata. if calldata = ''0xc7c7f5b3''
                                          then Inr (maxSendParam, maxFee, quotedRefund)
                                          else Inr (quotedParam, quotedFee, quotedRefund)),
      encodeFunctionData = (\<lambda>args. ''0xc7c7f5b3ff'')\<rparr>"

definition inconsistentEnv :: env where
  "inconsistentEnv = \<lparr>codec = inconsistentCodec, client = okClient, bigInt = decimalBigInt\<rparr>"

text \<open>A ledger client that names each submission after its target and reports the
  transaction sent to \<open>0xpool2\<close> as reverted.\<close>

definition revertedReceipt :: TransactionReceipt where
  "revertedReceipt = \<lparr>status = ''reverted''\<rparr>"

definition revertingClient :: client where
  "revertingClient =
     \<lparr>sendTransaction = (\<lambda>log req. Inr (req_to req)),
      waitForTransactionReceipt =
        (\<lambda>log h. Inr (if h = ''0xpool2'' then revertedReceipt else okReceipt))\<rparr>"

definition revertingEnv :: env where
  "revertingEnv = \<lparr>codec = viem, client = revertingClient, bigInt = decimalBigInt\<rparr>"

text \<open>A route with neither an approval nor a transfer, and one with an approval and a
  transfer whose call data stops after the discriminator.\<close>

definition unrelatedRoute :: StargateQuote where
  "unrelatedRoute = mkQuote ''stargate/v2/unrelated'' [stepB]"

definition approveTruncatedRoute :: StargateQuote where
  "approveTruncatedRoute =
     mkQuote ''stargate/v2/approve-truncated''
       [approveStep, mkStep ''bridge'' ''0xc7c7f5b3'' ''0xpool0'' ''0'']"

text \<open>A route whose transfer step carries a value that is not an integer.\<close>

definition badValueRoute :: StargateQuote where
  "badValueRoute =
     mkQuote ''stargate/v2/bad-value'' [mkStep ''bridge'' ''0xc7c7f5b3'' ''0xpool0'' ''1e18'']"

text \<open>A codec that cannot decode what it encodes.\<close>

definition lossyCodec :: codec where
  "lossyCodec =
     \<lparr>decodeFunctionData = (\<lambda>calldata. if calldata = ''0xc7c7f5b3''
                                          then Inr (maxSendParam, maxFee, quotedRefund)
                                          else Inl Malformed),
      encodeFunctionData = (\<lambda>args. ''0xc7c7f5b3ff'')\<rparr>"

definition lossyEnv :: env where
  "lossyEnv = \<lparr>codec = lossyCodec, client = okClient, bigInt = decimalBigInt\<rparr>"


section \<open>Hex strings and words: round trips\<close>

lemma hexVal_hexDigit_all: "list_all (\<lambda>n. hexVal (hexDigit n) = Some n) [0..<16]"
  by code_simp

lemma hexVal_hexDigit: "n < 16 \<Longrightarrow> hexVal (hexDigit n) = Some n"
  using hexVal_hexDigit_all by (simp add: list_all_iff)

lemma byte_nibbles: "(of_nat (16 * (unat b div 16) + unat b mod 16) :: byte) = b"
  by simp

lemma unat_byte_div16: "unat (b :: byte) div 16 < 16"
proof -
  have "unat b < 256" using unsigned_less [of b] by simp
  then show ?thesis by simp
qed

lemma fromHexDigits_toHexDigits: "fromHexDigits (toHexDigits bs) = Some bs"
  by (induction bs) (simp_all add: hexVal_hexDigit unat_byte_div16)

lemma hexToBytes_bytesToHex: "hexToBytes (bytesToHex bs) = Some bs"
  by (simp add: hexToBytes_def bytesToHex_def fromHexDigits_toHexDigits)

lemma length_be_bytes: "length (be_bytes n v) = n"
  by (induction n arbitrary: v) simp_all

lemma be_nat_snoc: "be_nat (bs @ [b]) = be_nat bs * 256 + unat b"
  by (simp add: be_nat_def)

lemma be_nat_be_bytes: "v < 256 ^ n \<Longrightarrow> be_nat (be_bytes n v) = v"
proof (induction n arbitrary: v)
  case 0
  then show ?case by (simp add: be_nat_def)
next
  case (Suc n)
  have "v div 256 < 256 ^ n" using Suc.prems by (simp add: less_mult_imp_div_less)
  then have "be_nat (be_bytes n (v div 256)) = v div 256" by (rule Suc.IH)
  moreover have "unat (of_nat (v mod 256) :: byte) = v mod 256"
    by (simp add: unat_of_nat)
  ultimately show ?case by (simp add: be_nat_snoc)
qed

lemma length_abi_word: "length (abi_word v) = 32"
  by (simp add: abi_word_def length_be_bytes)

lemma be_nat_abi_word: "fits256 v \<Longrightarrow> be_nat (abi_word v) = v"
proof -
  assume "fits256 v"
  then have "v < 2 ^ 256" by (simp add: fits256_def)
  moreover have "(256::nat) ^ 32 = 2 ^ 256" by simp
  ultimately show ?thesis unfolding abi_word_def by (simp add: be_nat_be_bytes)
qed

lemma readWord_at:
  "length pre = pos \<Longrightarrow> fits256 v \<Longrightarrow> readWord (pre @ abi_word v @ post) pos = Some v"
  by (simp add: readWord_def length_abi_word be_nat_abi_word)

lemma readBytes_at:
  "length pre = pos \<Longrightarrow> fits256 (length b) \<Longrightarrow> readBytes (pre @ abi_bytes b @ post) pos = Some b"
  by (simp add: readBytes_def abi_bytes_def readWord_at length_abi_word)

section \<open>The wire format: decoding inverts encoding\<close>

lemma fits256_mono: "a \<le> b \<Longrightarrow> fits256 b \<Longrightarrow> fits256 a"
  by (simp add: fits256_def)

lemma unat32_fits: "fits256 (unat (w :: 32 word))"
proof -
  have "unat w < 2 ^ 32" using unsigned_less [of w] by simp
  also have "(2::nat) ^ 32 \<le> 2 ^ 256" by simp
  finally show ?thesis by (simp add: fits256_def)
qed

lemma unat160_fits: "fits256 (unat (w :: 160 word))"
proof -
  have "unat w < 2 ^ 160" using unsigned_less [of w] by simp
  also have "(2::nat) ^ 160 \<le> 2 ^ 256" by simp
  finally show ?thesis by (simp add: fits256_def)
qed

lemma unat256_fits: "fits256 (unat (w :: 256 word))"
  using unsigned_less [of w] by (simp add: fits256_def)

lemma small_fits: "fits256 224" "fits256 128"
  by (simp_all add: fits256_def)

lemma unat32_small: "unat (w :: 32 word) < 2 ^ 32"
  using unsigned_less [of w] by simp

lemma unat160_small: "unat (w :: 160 word) < 2 ^ 160"
  using unsigned_less [of w] by simp

lemma length_abi_bytes: "length (abi_bytes b) = 32 + length b + pad_len (length b)"
  by (simp add: abi_bytes_def length_abi_word)

lemma decodeSendParam_encodeSendParam:
  assumes wf: "well_formed sp"
  shows "decodeSendParam (pre @ encodeSendParam sp) (length pre) = Some sp"
proof -
  define e1 where "e1 = abi_bytes (extraOptions sp)"
  define e2 where "e2 = abi_bytes (composeMsg sp)"
  define e3 where "e3 = abi_bytes (oftCmd sp)"
  define w1 where "w1 = abi_word (unat (dstEid sp))"
  define w2 where "w2 = abi_word (unat (to sp))"
  define w3 where "w3 = abi_word (unat (amountLD sp))"
  define w4 where "w4 = abi_word (unat (minAmountLD sp))"
  define o2 where "o2 = 224 + length e1"
  define o3 where "o3 = o2 + length e2"
  define bs where "bs = pre @ encodeSendParam sp"
  define base where "base = length pre"
  have bs: "bs = pre @ w1 @ w2 @ w3 @ w4 @ abi_word 224 @ abi_word o2 @ abi_word o3 @ e1 @ e2 @ e3"
    by (simp add: bs_def encodeSendParam_def Let_def e1_def e2_def e3_def w1_def w2_def w3_def
        w4_def o2_def o3_def)
  have lw: "length w1 = 32" "length w2 = 32" "length w3 = 32" "length w4 = 32"
    by (simp_all add: w1_def w2_def w3_def w4_def length_abi_word)
  have total: "fits256 (224 + length e1 + length e2 + length e3)"
    using wf by (simp add: well_formed_def fits256_def e1_def e2_def e3_def)
  have o2: "fits256 o2" and o3: "fits256 o3"
    by (rule fits256_mono [OF _ total], simp add: o2_def o3_def)+
  have l1: "fits256 (length (extraOptions sp))"
    and l2: "fits256 (length (composeMsg sp))"
    and l3: "fits256 (length (oftCmd sp))"
    by (rule fits256_mono [OF _ total], simp add: e1_def e2_def e3_def length_abi_bytes)+
  have r1: "readWord bs base = Some (unat (dstEid sp))"
    unfolding bs w1_def base_def by (rule readWord_at) (simp_all add: unat32_fits)
  have r2: "readWord bs (base + 32) = Some (unat (to sp))"
    using readWord_at [of "pre @ w1" "base + 32" "unat (to sp)"]
    by (simp add: bs w2_def base_def lw unat256_fits)
  have r3: "readWord bs (base + 64) = Some (unat (amountLD sp))"
    using readWord_at [of "pre @ w1 @ w2" "base + 64" "unat (amountLD sp)"]
    by (simp add: bs w3_def base_def lw unat256_fits)
  have r4: "readWord bs (base + 96) = Some (unat (minAmountLD sp))"
    using readWord_at [of "pre @ w1 @ w2 @ w3" "base + 96" "unat (minAmountLD sp)"]
    by (simp add: bs w4_def base_def lw unat256_fits)
  have r5: "readWord bs (base + 128) = Some 224"
    using readWord_at [of "pre @ w1 @ w2 @ w3 @ w4" "base + 128" 224]
    by (simp add: bs base_def lw small_fits)
  have r6: "readWord bs (base + 160) = Some o2"
    using readWord_at [of "pre @ w1 @ w2 @ w3 @ w4 @ abi_word 224" "base + 160" o2] o2
    by (simp add: bs base_def lw length_abi_word)
  have r7: "readWord bs (base + 192) = Some o3"
    using readWord_at [of "pre @ w1 @ w2 @ w3 @ w4 @ abi_word 224 @ abi_word o2" "base + 192" o3] o3
    by (simp add: bs base_def lw length_abi_word)
  have b1: "readBytes bs (base + 224) = Some (extraOptions sp)"
    using readBytes_at [of "pre @ w1 @ w2 @ w3 @ w4 @ abi_word 224 @ abi_word o2 @ abi_word o3"
        "base + 224" "extraOptions sp" "e2 @ e3"] l1
    by (simp add: bs base_def lw length_abi_word e1_def)
  have b2: "readBytes bs (base + o2) = Some (composeMsg sp)"
    using readBytes_at [of "pre @ w1 @ w2 @ w3 @ w4 @ abi_word 224 @ abi_word o2 @ abi_word o3 @ e1"
        "base + o2" "composeMsg sp" "e3"] l2
    by (simp add: bs base_def lw length_abi_word e2_def o2_def)
  have b3: "readBytes bs (base + o3) = Some (oftCmd sp)"
    using readBytes_at [of "pre @ w1 @ w2 @ w3 @ w4 @ abi_word 224 @ abi_word o2 @ abi_word o3 @ e1 @ e2"
        "base + o3" "oftCmd sp" "[]"] l3
    by (simp add: bs base_def lw length_abi_word e3_def o2_def o3_def)
  have "decodeSendParam bs base = Some sp"
    unfolding decodeSendParam_def
    using unat32_small [of "dstEid sp"] by (simp add: r1 r2 r3 r4 r5 r6 r7 b1 b2 b3)
  then show ?thesis by (simp add: bs_def base_def)
qed

lemma decodeAbiParameters_encodeAbiParameters:
  assumes wf: "well_formed sp"
  shows "decodeAbiParameters (encodeAbiParameters (sp, f, r)) = Some (sp, f, r)"
proof -
  define h where "h = abi_word 128 @ abi_word (unat (nativeFee f)) @
                      abi_word (unat (lzTokenFee f)) @ abi_word (unat r)"
  define bs where "bs = encodeAbiParameters (sp, f, r)"
  have bs: "bs = abi_word 128 @ abi_word (unat (nativeFee f)) @
                 abi_word (unat (lzTokenFee f)) @ abi_word (unat r) @ encodeSendParam sp"
    by (simp add: bs_def encodeAbiParameters_def)
  have lh: "length h = 128" by (simp add: h_def length_abi_word)
  have r0: "readWord bs 0 = Some 128"
    using readWord_at [of "[]" 0 128] by (simp add: bs small_fits)
  have r1: "readWord bs 32 = Some (unat (nativeFee f))"
    using readWord_at [of "abi_word 128" 32 "unat (nativeFee f)"]
    by (simp add: bs length_abi_word unat256_fits)
  have r2: "readWord bs 64 = Some (unat (lzTokenFee f))"
    using readWord_at [of "abi_word 128 @ abi_word (unat (nativeFee f))" 64 "unat (lzTokenFee f)"]
    by (simp add: bs length_abi_word unat256_fits)
  have r3: "readWord bs 96 = Some (unat r)"
    using readWord_at [of "abi_word 128 @ abi_word (unat (nativeFee f)) @ abi_word (unat (lzTokenFee f))"
        96 "unat r" "encodeSendParam sp"]
    by (simp add: bs length_abi_word unat160_fits)
  have "decodeSendParam (h @ encodeSendParam sp) (length h) = Some sp"
    using wf by (rule decodeSendParam_encodeSendParam)
  then have sp: "decodeSendParam bs 128 = Some sp"
    by (simp add: lh) (simp add: bs h_def)
  have "decodeAbiParameters bs = Some (sp, f, r)"
    unfolding decodeAbiParameters_def
    using unat160_small [of r] by (simp add: r0 r1 r2 r3 sp)
  then show ?thesis by (simp add: bs_def)
qed

lemma take10_encoded: "take 10 (bytesToHex (send_selector @ body)) = ''0xc7c7f5b3''"
  by (simp add: bytesToHex_def send_selector_def hexDigit_def)

lemma drop4_selector: "drop 4 (send_selector @ body) = body"
  by (simp add: send_selector_def)

lemma viem_roundtrip:
  assumes "well_formed sp"
  shows "viem_decodeFunctionData (viem_encodeFunctionData (sp, f, r)) = Inr (sp, f, r)"
  using assms
  by (simp add: viem_decodeFunctionData_def viem_encodeFunctionData_def take10_encoded
      hexToBytes_bytesToHex drop4_selector decodeAbiParameters_encodeAbiParameters
      del: drop_append)

section \<open>The codec\<close>

text \<open>
  Claim C1. Decoding the encoding of a well-formed triple gives the triple back, field
  for field; empty byte strings and maximal 256-bit integers included.
\<close>

theorem roundtrip:
  assumes "well_formed sp"
  shows "decodeStargateCalldata viem (encodeStargateCalldata viem sp f r)
         = Inr \<lparr>sendParam = sp, fee = f, refundAddress = r\<rparr>"
  using assms
  by (simp add: decodeStargateCalldata_def encodeStargateCalldata_def viem_def viem_roundtrip)

theorem roundtrip_witness:
  "well_formed maxSendParam \<and>
   unat (amountLD maxSendParam) = 2 ^ 256 - 1 \<and>
   decodeStargateCalldata viem (encodeStargateCalldata viem maxSendParam maxFee (- 1))
     = Inr \<lparr>sendParam = maxSendParam, fee = maxFee, refundAddress = - 1\<rparr>"
proof -
  have "well_formed maxSendParam"
    by (simp add: well_formed_def maxSendParam_def abi_bytes_def length_abi_word pad_len_def)
  moreover have "unat (amountLD maxSendParam) = 2 ^ 256 - 1"
    by (simp add: maxSendParam_def unsigned_minus_1_eq_mask mask_eq_exp_minus_1)
  ultimately show ?thesis using roundtrip [of maxSendParam maxFee "- 1"] by simp
qed

lemma take_toHexDigits: "take (2 * n) (toHexDigits bs) = toHexDigits (take n bs)"
proof (induction bs arbitrary: n)
  case Nil
  then show ?case by simp
next
  case (Cons b bs)
  then show ?case by (cases n) simp_all
qed

lemma toHexDigits_inj: "toHexDigits xs = toHexDigits ys \<Longrightarrow> xs = ys"
proof -
  assume "toHexDigits xs = toHexDigits ys"
  then have "fromHexDigits (toHexDigits xs) = fromHexDigits (toHexDigits ys)" by simp
  then show "xs = ys" by (simp add: fromHexDigits_toHexDigits)
qed

lemma take10_bytesToHex:
  "take 10 (bytesToHex bs) = ''0xc7c7f5b3'' \<longleftrightarrow> take 4 bs = send_selector"
proof -
  have "take 10 (bytesToHex bs) = ''0x'' @ take (2 * 4) (toHexDigits bs)"
    by (simp add: bytesToHex_def)
  also have "\<dots> = ''0x'' @ toHexDigits (take 4 bs)"
    by (simp only: take_toHexDigits)
  finally have "take 10 (bytesToHex bs) = ''0x'' @ toHexDigits (take 4 bs)" .
  moreover have "''0xc7c7f5b3'' = ''0x'' @ toHexDigits send_selector"
    by (simp add: send_selector_def hexDigit_def)
  ultimately show ?thesis
    using toHexDigits_inj [of "take 4 bs" send_selector] by auto
qed

lemma selector_mismatch_text:
  "take 10 calldata \<noteq> ''0xc7c7f5b3'' \<Longrightarrow>
   decodeStargateCalldata viem calldata = Inl (FailedToDecodeCalldata SelectorMismatch)"
  by (simp add: decodeStargateCalldata_def viem_def viem_decodeFunctionData_def)

text \<open>
  Claim C9. Call data whose first four bytes are not the discriminator of the transfer
  call is rejected with the selector-mismatch error; nothing is parsed from it.
\<close>

theorem selector_mismatch:
  assumes "take 4 bs \<noteq> send_selector"
  shows "decodeStargateCalldata viem (bytesToHex bs) = Inl (FailedToDecodeCalldata SelectorMismatch)"
  using assms by (simp add: selector_mismatch_text take10_bytesToHex)

theorem selector_mismatch_witness:
  "take 4 [0x09, 0x5e, 0xa7, 0xb3, 0x00 :: byte] \<noteq> send_selector \<and>
   decodeStargateCalldata viem (bytesToHex [0x09, 0x5e, 0xa7, 0xb3, 0x00])
     = Inl (FailedToDecodeCalldata SelectorMismatch)"
proof -
  have "take 4 [0x09, 0x5e, 0xa7, 0xb3, 0x00 :: byte] \<noteq> send_selector"
    by (simp add: send_selector_def)
  then show ?thesis using selector_mismatch [of "[0x09, 0x5e, 0xa7, 0xb3, 0x00]"] by simp
qed

section \<open>Classification\<close>

lemma classifyLoop_lastMatch:
  "classifyLoop ss i (a, t, k) =
     ((case lastMatch isApprovalStep i ss of None \<Rightarrow> a | Some m \<Rightarrow> Some (fst m)),
      (case lastMatch isSendStep i ss of None \<Rightarrow> t | Some m \<Rightarrow> Some (fst m)),
      (case lastMatch isSendStep i ss of None \<Rightarrow> k | Some m \<Rightarrow> int (snd m)))"
proof (induction ss arbitrary: i a t k)
  case Nil
  then show ?case by simp
next
  case (Cons s ss)
  show ?case
    by (auto simp: Cons.IH Let_def isApprovalStep_def isSendStep_def split: option.splits)
qed

lemma lastMatch_None: "lastMatch P i ss = None \<longleftrightarrow> (\<forall>s \<in> set ss. \<not> P s)"
proof (induction ss arbitrary: i)
  case Nil
  then show ?case by simp
next
  case (Cons x xs)
  from Cons.IH [of "Suc i"] show ?case
    by (cases "lastMatch P (Suc i) xs") auto
qed

lemma lastMatch_last:
  "P s \<Longrightarrow> \<forall>y \<in> set ys. \<not> P y \<Longrightarrow> lastMatch P i (xs @ s # ys) = Some (s, i + length xs)"
proof (induction xs arbitrary: i)
  case Nil
  then have "lastMatch P (Suc i) ys = None" by (simp add: lastMatch_None)
  with Nil show ?case by simp
next
  case (Cons x xs)
  from Cons.IH [OF Cons.prems, of "i + 1"] show ?case by simp
qed

lemma firstMatch_first:
  "P s \<Longrightarrow> \<forall>x \<in> set xs. \<not> P x \<Longrightarrow> firstMatch P i (xs @ s # ys) = Some (s, i + length xs)"
  by (induction xs arbitrary: i) simp_all

text \<open>
  Claim C4, as amended. Classification is last-match for both kinds: the approval
  candidate is the last step whose discriminator is the approve-spending one, the
  transfer step and its recorded index are the last step whose discriminator is the
  transfer one, and the index is \<open>-1\<close> when there is none.
\<close>

theorem classify_last_match: "classify ss = classifiedBy lastMatch ss"
  by (simp add: classify_def classifiedBy_def classifyLoop_lastMatch split: option.splits)

text \<open>
  On \<open>[A(approve), B(unrelated), C(transfer), D(transfer)]\<close> the first-match rule
  gives the transfer \<open>(C, 2)\<close>; the loop returns \<open>(D, 3)\<close>.
\<close>

theorem classify_first_match_counterexample:
  "classifiedBy firstMatch [stepA, stepB, stepC, stepD] = (Some stepA, Some stepC, 2) \<and>
   classify [stepA, stepB, stepC, stepD] = (Some stepA, Some stepD, 3) \<and>
   stepC \<noteq> stepD"
  by (simp add: classify_def classifiedBy_def isApprovalStep_def isSendStep_def
      stepA_def stepB_def stepC_def stepD_def mkStep_def)

section \<open>The loop over the routes\<close>

lemma processRoutes_append:
  "processRoutes ev log pre = (log1, ocs, Exhausted) \<Longrightarrow>
   processRoutes ev log (pre @ rest) =
     (case processRoutes ev log1 rest of (log2, os, ex) \<Rightarrow> (log2, ocs @ os, ex))"
proof (induction pre arbitrary: log ocs)
  case Nil
  then show ?case by (simp split: prod.splits)
next
  case (Cons q pre)
  obtain l res where pr: "processRoute ev log q = (l, res)" by (cases "processRoute ev log q")
  show ?case
  proof (cases res)
    case (Inl e)
    with pr Cons.prems show ?thesis by simp
  next
    case (Inr oc)
    obtain l' os' ex' where rec: "processRoutes ev l pre = (l', os', ex')"
      by (cases "processRoutes ev l pre") auto
    from pr Inr rec Cons.prems have ex: "ex' = Exhausted" and l': "l' = log1"
      and os: "ocs = (route q, oc) # os'" and nc: "\<forall>h r. oc \<noteq> Confirmed h r"
      by (auto split: route_outcome.splits)
    from Cons.IH [of l os'] rec ex l'
    have "processRoutes ev l (pre @ rest) =
            (case processRoutes ev log1 rest of (log2, os, ex) \<Rightarrow> (log2, os' @ os, ex))"
      by simp
    with pr Inr os nc show ?thesis
      by (cases oc) (auto split: prod.splits)
  qed
qed

lemma main_threw:
  assumes "filter isStargateRoute quotes = rs" "rs \<noteq> []"
    and "processRoutes ev [] rs = (l, os, Threw e)"
  shows "main ev quotes = \<lparr>events = l, outcomes = os, failure = Some e, exitCode = 1\<rparr>"
  using assms by (simp add: main_def)

lemma main_finished:
  assumes "filter isStargateRoute quotes = rs" "rs \<noteq> []"
    and "processRoutes ev [] rs = (l, os, ex)" "\<forall>e. ex \<noteq> Threw e"
  shows "main ev quotes = \<lparr>events = l, outcomes = os, failure = None, exitCode = 0\<rparr>"
  using assms by (cases ex) (simp_all add: main_def)

lemma main_route_throws:
  assumes rts: "filter isStargateRoute quotes = pre @ q # post"
    and before: "processRoutes ev [] pre = (log1, ocs, Exhausted)"
    and thrown: "processRoute ev log1 q = (log2, Inl e)"
  shows "main ev quotes = \<lparr>events = log2, outcomes = ocs, failure = Some e, exitCode = 1\<rparr>"
proof -
  have "processRoutes ev [] (pre @ q # post) = (log2, ocs, Threw e)"
    using processRoutes_append [OF before, of "q # post"] thrown by simp
  with rts show ?thesis by (intro main_threw [of quotes "pre @ q # post"]) simp_all
qed

lemma main_route_confirmed:
  assumes rts: "filter isStargateRoute quotes = pre @ q # post"
    and before: "processRoutes ev [] pre = (log1, ocs, Exhausted)"
    and conf: "processRoute ev log1 q = (log2, Inr (Confirmed h r))"
  shows "main ev quotes = \<lparr>events = log2, outcomes = ocs @ [(route q, Confirmed h r)],
                           failure = None, exitCode = 0\<rparr>"
proof -
  have "processRoutes ev [] (pre @ q # post) = (log2, ocs @ [(route q, Confirmed h r)], Broke)"
    using processRoutes_append [OF before, of "q # post"] conf by simp
  with rts show ?thesis by (intro main_finished [of quotes "pre @ q # post" _ _ _ Broke]) simp_all
qed

lemma main_route_continues:
  assumes rts: "filter isStargateRoute quotes = pre @ q # post"
    and before: "processRoutes ev [] pre = (log1, ocs, Exhausted)"
    and cont: "processRoute ev log1 q = (log2, Inr oc)" "\<forall>h r. oc \<noteq> Confirmed h r"
  shows "events (main ev quotes) = fst (processRoutes ev log2 post) \<and>
         outcomes (main ev quotes)
           = ocs @ (route q, oc) # fst (snd (processRoutes ev log2 post))"
proof -
  obtain l os ex where rest: "processRoutes ev log2 post = (l, os, ex)"
    by (cases "processRoutes ev log2 post") auto
  have "processRoutes ev [] (pre @ q # post) = (l, ocs @ (route q, oc) # os, ex)"
    using processRoutes_append [OF before, of "q # post"] cont rest
    by (cases oc) simp_all
  with rts have "processRoutes ev [] (filter isStargateRoute quotes) = (l, ocs @ (route q, oc) # os, ex)"
    by simp
  with rts rest show ?thesis by (cases ex) (simp_all add: main_def)
qed

section \<open>One route\<close>

lemma processRoute_approval_throws:
  assumes "classify (steps q) = (a, t, i)"
    and "handleApproval (client ev) log a = (log1, Inl e)"
  shows "processRoute ev log q = (log1, Inl e)"
  using assms by (simp add: processRoute_def)

lemma processRoute_no_transfer:
  assumes "classify (steps q) = (a, None, i)"
    and "handleApproval (client ev) log a = (log1, Inr ())"
  shows "processRoute ev log q = (log1, Inr SkippedNoTransfer)"
  using assms by (simp add: processRoute_def)

lemma processRoute_build_throws:
  assumes "classify (steps q) = (a, Some s, i)"
    and "handleApproval (client ev) log a = (log1, Inr ())"
    and "buildTransaction ev s = Inl e"
  shows "processRoute ev log q = (log1, Inl e)"
  using assms by (simp add: processRoute_def)

lemma processRoute_submits:
  assumes "classify (steps q) = (a, Some s, i)"
    and "handleApproval (client ev) log a = (log1, Inr ())"
    and "buildTransaction ev s = Inr req"
    and "submitTransfer (client ev) log1 req = (log2, oc)"
  shows "processRoute ev log q = (log2, Inr oc)"
  using assms by (simp add: processRoute_def)

lemma submitTransfer_send_fails:
  "sendTransaction cl log req = Inl e \<Longrightarrow>
   submitTransfer cl log req = (log @ [SendTransaction req], RouteFailed e)"
  by (simp add: submitTransfer_def)

lemma submitTransfer_wait_fails:
  "sendTransaction cl log req = Inr h \<Longrightarrow>
   waitForTransactionReceipt cl (log @ [SendTransaction req]) h = Inl e \<Longrightarrow>
   submitTransfer cl log req
     = (log @ [SendTransaction req, WaitForTransactionReceipt h], RouteFailed e)"
  by (simp add: submitTransfer_def)

lemma submitTransfer_confirmed:
  "sendTransaction cl log req = Inr h \<Longrightarrow>
   waitForTransactionReceipt cl (log @ [SendTransaction req]) h = Inr r \<Longrightarrow>
   submitTransfer cl log req
     = (log @ [SendTransaction req, WaitForTransactionReceipt h], Confirmed h r)"
  by (simp add: submitTransfer_def)

lemma buildTransaction_decode_fails:
  "decodeStargateCalldata (codec ev) (tx_data (transaction s)) = Inl e \<Longrightarrow>
   buildTransaction ev s = Inl e"
  by (simp add: buildTransaction_def)

lemma buildTransaction_Inr:
  assumes "buildTransaction ev s = Inr req"
  obtains d vd v where
    "decodeStargateCalldata (codec ev) (tx_data (transaction s)) = Inr d"
    "decodeStargateCalldata (codec ev)
       (encodeStargateCalldata (codec ev) (sendParam d) (fee d) customRefundAddress) = Inr vd"
    "bigInt ev (tx_value (transaction s)) = Inr v"
    "req = \<lparr>req_to = tx_to (transaction s), req_value = Some v,
            req_data = encodeStargateCalldata (codec ev) (sendParam d) (fee d) customRefundAddress\<rparr>"
  using assms by (auto simp: buildTransaction_def Let_def split: sum.splits)

lemma handleApproval_Some_log:
  assumes "handleApproval cl log (Some a) = (log1, res)"
  shows "\<exists>rest. log1 = log @ SendTransaction (approvalRequest a) # rest"
  using assms by (auto simp: handleApproval_def Let_def split: sum.splits)

section \<open>Scenario facts\<close>

lemma well_formed_quotedParam: "well_formed quotedParam"
  by (simp add: well_formed_def quotedParam_def abi_bytes_def length_abi_word pad_len_def)

lemma take10_quotedCalldata: "take 10 quotedCalldata = ''0xc7c7f5b3''"
  by (simp add: quotedCalldata_def encodeStargateCalldata_def viem_def
      viem_encodeFunctionData_def take10_encoded)

lemma quotedCalldata_nonempty: "quotedCalldata \<noteq> []"
  using take10_quotedCalldata by auto

lemma decode_quotedCalldata:
  "decodeStargateCalldata viem quotedCalldata
     = Inr \<lparr>sendParam = quotedParam, fee = quotedFee, refundAddress = quotedRefund\<rparr>"
  by (simp add: quotedCalldata_def decodeStargateCalldata_def encodeStargateCalldata_def viem_def
      viem_roundtrip well_formed_quotedParam)

lemma decode_overriddenCalldata:
  "decodeStargateCalldata viem overriddenCalldata
     = Inr \<lparr>sendParam = quotedParam, fee = quotedFee, refundAddress = customRefundAddress\<rparr>"
  by (simp add: overriddenCalldata_def decodeStargateCalldata_def encodeStargateCalldata_def viem_def
      viem_roundtrip well_formed_quotedParam)

lemma decimalBigInt_42000: "decimalBigInt ''42000'' = Inr 42000"
  by (simp add: decimalBigInt_def)

lemma build_quoted:
  assumes "codec ev = viem" "bigInt ev = decimalBigInt"
  shows "buildTransaction ev (mkStep ty quotedCalldata target ''42000'')
           = Inr (transferRequest target)"
  using assms decode_overriddenCalldata
  by (simp add: buildTransaction_def mkStep_def decode_quotedCalldata decimalBigInt_42000
      overriddenCalldata_def transferRequest_def)

lemma classify_route1:
  "classify (steps route1)
     = (Some approveStep, Some (mkStep ''bridge'' quotedCalldata ''0xpool1'' ''42000''), 1)"
  by (simp add: classify_def route1_def mkQuote_def approveStep_def mkStep_def
      take10_quotedCalldata quotedCalldata_nonempty)

lemma classify_route2:
  "classify (steps route2) = (None, Some (mkStep ''bridge'' quotedCalldata ''0xpool2'' ''42000''), 0)"
  by (simp add: classify_def route2_def mkQuote_def mkStep_def
      take10_quotedCalldata quotedCalldata_nonempty)

lemma submitTransfer_log:
  assumes "submitTransfer cl log req = (log', oc)"
  shows "\<exists>rest. log' = log @ SendTransaction req # rest \<and> (\<forall>r. SendTransaction r \<notin> set rest)"
  using assms by (auto simp: submitTransfer_def Let_def split: sum.splits)

lemma Decoded_update_refund:
  "d\<lparr>refundAddress := c\<rparr> = \<lparr>sendParam = sendParam d, fee = fee d, refundAddress = c\<rparr>"
  by (cases d) simp

lemma okEnv_simps: "codec okEnv = viem" "client okEnv = okClient" "bigInt okEnv = decimalBigInt"
  by (simp_all add: okEnv_def)

lemma scenarioEnv_simps:
  "codec scenarioEnv = viem" "client scenarioEnv = scenarioClient" "bigInt scenarioEnv = decimalBigInt"
  by (simp_all add: scenarioEnv_def)

lemma rejectingEnv_simps:
  "codec rejectingEnv = viem" "client rejectingEnv = rejectingClient" "bigInt rejectingEnv = decimalBigInt"
  by (simp_all add: rejectingEnv_def)

lemma stargate_routes:
  "isStargateRoute route1" "isStargateRoute route2" "isStargateRoute route3"
  "isStargateRoute approveOnlyRoute" "isStargateRoute truncatedRoute"
  by (simp_all add: isStargateRoute_def route1_def route2_def route3_def approveOnlyRoute_def
      truncatedRoute_def mkQuote_def)

lemma route_names:
  "route route1 = ''stargate/v2/taxi''" "route route2 = ''stargate/v2/bus''"
  "route route3 = ''stargate/v2/oft''"
  by (simp_all add: route1_def route2_def route3_def mkQuote_def)

lemma processRoute_route2_ok:
  assumes "codec ev = viem" "bigInt ev = decimalBigInt"
    and "sendTransaction (client ev) log (transferRequest ''0xpool2'') = Inr h"
    and "waitForTransactionReceipt (client ev) (log @ [SendTransaction (transferRequest ''0xpool2'')]) h = Inr r"
  shows "processRoute ev log route2
           = (log @ [SendTransaction (transferRequest ''0xpool2''), WaitForTransactionReceipt h],
              Inr (Confirmed h r))"
  using assms
  by (simp add: processRoute_def classify_route2 handleApproval_def build_quoted submitTransfer_def)

section \<open>The orchestration\<close>

text \<open>
  Claim C2. On a route that reaches submission, the call data submitted is the encoding
  of the decoded transfer parameters and fee, unchanged, with the configured refund
  address; with the wire format of the specification it decodes to the quoted call with
  only the refund address replaced. It is the only transaction sent after the approval.
\<close>

theorem only_refund_differs:
  assumes cls: "classify (steps q) = (a, Some s, i)"
    and run: "processRoute ev log q = (log', Inr oc)"
  shows "\<exists>d v log1 rest.
           handleApproval (client ev) log a = (log1, Inr ()) \<and>
           decodeStargateCalldata (codec ev) (tx_data (transaction s)) = Inr d \<and>
           log' = log1 @ SendTransaction
                    \<lparr>req_to = tx_to (transaction s), req_value = Some v,
                     req_data = encodeStargateCalldata (codec ev) (sendParam d) (fee d)
                                  customRefundAddress\<rparr> # rest \<and>
           (\<forall>r. SendTransaction r \<notin> set rest) \<and>
           (codec ev = viem \<and> well_formed (sendParam d) \<longrightarrow>
              decodeStargateCalldata viem
                (encodeStargateCalldata (codec ev) (sendParam d) (fee d) customRefundAddress)
                = Inr (d\<lparr>refundAddress := customRefundAddress\<rparr>))"
proof -
  obtain log1 res where ha: "handleApproval (client ev) log a = (log1, res)"
    by (cases "handleApproval (client ev) log a")
  from cls run ha have res: "res = Inr ()"
    by (cases res) (auto simp: processRoute_def)
  from cls run ha res obtain req where build: "buildTransaction ev s = Inr req"
    by (cases "buildTransaction ev s") (auto simp: processRoute_def)
  from cls run ha res build have sub: "submitTransfer (client ev) log1 req = (log', oc)"
    by (auto simp: processRoute_def split: prod.splits)
  from build obtain d vd v where
    dec: "decodeStargateCalldata (codec ev) (tx_data (transaction s)) = Inr d"
    and req: "req = \<lparr>req_to = tx_to (transaction s), req_value = Some v,
                    req_data = encodeStargateCalldata (codec ev) (sendParam d) (fee d)
                                 customRefundAddress\<rparr>"
    by (rule buildTransaction_Inr)
  from submitTransfer_log [OF sub] obtain rest where
    log': "log' = log1 @ SendTransaction req # rest" and rest: "\<forall>r. SendTransaction r \<notin> set rest"
    by blast
  have rt: "codec ev = viem \<and> well_formed (sendParam d) \<longrightarrow>
              decodeStargateCalldata viem
                (encodeStargateCalldata (codec ev) (sendParam d) (fee d) customRefundAddress)
                = Inr (d\<lparr>refundAddress := customRefundAddress\<rparr>)"
    by (simp add: decodeStargateCalldata_def encodeStargateCalldata_def viem_def viem_roundtrip
        Decoded_update_refund)
  from ha res dec log' req rest rt show ?thesis by blast
qed

theorem only_refund_differs_witness:
  "classify (steps route2) = (None, Some (mkStep ''bridge'' quotedCalldata ''0xpool2'' ''42000''), 0) \<and>
   processRoute okEnv [] route2
     = ([SendTransaction (transferRequest ''0xpool2''), WaitForTransactionReceipt ''0xhash''],
        Inr (Confirmed ''0xhash'' okReceipt)) \<and>
   (\<exists>d v log1 rest.
      handleApproval (client okEnv) [] None = (log1, Inr ()) \<and>
      decodeStargateCalldata (codec okEnv) quotedCalldata = Inr d \<and>
      [SendTransaction (transferRequest ''0xpool2''), WaitForTransactionReceipt ''0xhash'']
        = log1 @ SendTransaction
            \<lparr>req_to = ''0xpool2'', req_value = Some v,
             req_data = encodeStargateCalldata (codec okEnv) (sendParam d) (fee d)
                          customRefundAddress\<rparr> # rest \<and>
      (\<forall>r. SendTransaction r \<notin> set rest) \<and>
      (codec okEnv = viem \<and> well_formed (sendParam d) \<longrightarrow>
         decodeStargateCalldata viem
           (encodeStargateCalldata (codec okEnv) (sendParam d) (fee d) customRefundAddress)
           = Inr (d\<lparr>refundAddress := customRefundAddress\<rparr>)))"
proof -
  have run: "processRoute okEnv [] route2
     = ([SendTransaction (transferRequest ''0xpool2''), WaitForTransactionReceipt ''0xhash''],
        Inr (Confirmed ''0xhash'' okReceipt))"
    by (simp add: processRoute_route2_ok okEnv_simps okClient_def)
  from only_refund_differs [OF classify_route2 run] classify_route2 run
  show ?thesis by (simp add: mkStep_def)
qed

text \<open>
  The routes are attempted in the order supplied. When the route reached after the
  routes \<open>pre\<close> gets as far as submitting its transfer, an exception from sending or
  from awaiting the receipt marks it failed and the loop goes on with the routes
  \<open>post\<close>; a receipt that is returned, whatever its status, ends the loop at once, and
  nothing of \<open>post\<close> is attempted.
\<close>

lemma routes_in_order:
  assumes rts: "filter isStargateRoute quotes = pre @ q # post"
    and before: "processRoutes ev [] pre = (log1, ocs, Exhausted)"
    and cls: "classify (steps q) = (a, Some s, i)"
    and appr: "handleApproval (client ev) log1 a = (log2, Inr ())"
    and build: "buildTransaction ev s = Inr req"
  shows "(sendTransaction (client ev) log2 req = Inl e \<longrightarrow>
            events (main ev quotes)
              = fst (processRoutes ev (log2 @ [SendTransaction req]) post) \<and>
            outcomes (main ev quotes)
              = ocs @ (route q, RouteFailed e)
                  # fst (snd (processRoutes ev (log2 @ [SendTransaction req]) post)))
       \<and> (sendTransaction (client ev) log2 req = Inr h \<and>
          waitForTransactionReceipt (client ev) (log2 @ [SendTransaction req]) h = Inl e \<longrightarrow>
            events (main ev quotes)
              = fst (processRoutes ev (log2 @ [SendTransaction req, WaitForTransactionReceipt h]) post) \<and>
            outcomes (main ev quotes)
              = ocs @ (route q, RouteFailed e)
                  # fst (snd (processRoutes ev
                                (log2 @ [SendTransaction req, WaitForTransactionReceipt h]) post)))
       \<and> (sendTransaction (client ev) log2 req = Inr h \<and>
          waitForTransactionReceipt (client ev) (log2 @ [SendTransaction req]) h = Inr r \<longrightarrow>
            main ev quotes
              = \<lparr>events = log2 @ [SendTransaction req, WaitForTransactionReceipt h],
                 outcomes = ocs @ [(route q, Confirmed h r)], failure = None, exitCode = 0\<rparr>)"
proof -
  have c1: "sendTransaction (client ev) log2 req = Inl e \<longrightarrow>
            events (main ev quotes)
              = fst (processRoutes ev (log2 @ [SendTransaction req]) post) \<and>
            outcomes (main ev quotes)
              = ocs @ (route q, RouteFailed e)
                  # fst (snd (processRoutes ev (log2 @ [SendTransaction req]) post))"
  proof
  assume "sendTransaction (client ev) log2 req = Inl e"
  then have "processRoute ev log1 q = (log2 @ [SendTransaction req], Inr (RouteFailed e))"
    by (intro processRoute_submits [OF cls appr build] submitTransfer_send_fails)
  from main_route_continues [OF rts before this]
  show "events (main ev quotes)
              = fst (processRoutes ev (log2 @ [SendTransaction req]) post) \<and>
        outcomes (main ev quotes)
              = ocs @ (route q, RouteFailed e)
                  # fst (snd (processRoutes ev (log2 @ [SendTransaction req]) post))"
    by simp
  qed
  have c2: "sendTransaction (client ev) log2 req = Inr h \<and>
          waitForTransactionReceipt (client ev) (log2 @ [SendTransaction req]) h = Inl e \<longrightarrow>
            events (main ev quotes)
              = fst (processRoutes ev (log2 @ [SendTransaction req, WaitForTransactionReceipt h]) post) \<and>
            outcomes (main ev quotes)
              = ocs @ (route q, RouteFailed e)
                  # fst (snd (processRoutes ev
                                (log2 @ [SendTransaction req, WaitForTransactionReceipt h]) post))"
  proof
  assume "sendTransaction (client ev) log2 req = Inr h \<and>
          waitForTransactionReceipt (client ev) (log2 @ [SendTransaction req]) h = Inl e"
  then have "processRoute ev log1 q
               = (log2 @ [SendTransaction req, WaitForTransactionReceipt h], Inr (RouteFailed e))"
    by (intro processRoute_submits [OF cls appr build] submitTransfer_wait_fails) simp_all
  from main_route_continues [OF rts before this]
  show "events (main ev quotes)
              = fst (processRoutes ev (log2 @ [SendTransaction req, WaitForTransactionReceipt h]) post) \<and>
        outcomes (main ev quotes)
              = ocs @ (route q, RouteFailed e)
                  # fst (snd (processRoutes ev
                                (log2 @ [SendTransaction req, WaitForTransactionReceipt h]) post))"
    by simp
  qed
  have c3: "sendTransaction (client ev) log2 req = Inr h \<and>
          waitForTransactionReceipt (client ev) (log2 @ [SendTransaction req]) h = Inr r \<longrightarrow>
            main ev quotes
              = \<lparr>events = log2 @ [SendTransaction req, WaitForTransactionReceipt h],
                 outcomes = ocs @ [(route q, Confirmed h r)], failure = None, exitCode = 0\<rparr>"
  proof
  assume "sendTransaction (client ev) log2 req = Inr h \<and>
          waitForTransactionReceipt (client ev) (log2 @ [SendTransaction req]) h = Inr r"
  then have "processRoute ev log1 q
               = (log2 @ [SendTransaction req, WaitForTransactionReceipt h], Inr (Confirmed h r))"
    by (intro processRoute_submits [OF cls appr build] submitTransfer_confirmed) simp_all
  from main_route_confirmed [OF rts before this]
  show "main ev quotes
          = \<lparr>events = log2 @ [SendTransaction req, WaitForTransactionReceipt h],
             outcomes = ocs @ [(route q, Confirmed h r)], failure = None, exitCode = 0\<rparr>" .
  qed
  from c1 c2 c3 show ?thesis by (intro conjI)
qed

lemma handleApproval_approveStep_ok:
  assumes "sendTransaction cl log (approvalRequest approveStep) = Inr h"
    and "waitForTransactionReceipt cl (log @ [SendTransaction (approvalRequest approveStep)]) h = Inr r"
  shows "handleApproval cl log (Some approveStep)
           = (log @ [SendTransaction (approvalRequest approveStep), WaitForTransactionReceipt h], Inr ())"
  using assms by (simp add: handleApproval_def)

lemma approvalRequest_approveStep:
  "approvalRequest approveStep = \<lparr>req_to = ''0xtoken'', req_value = None, req_data = ''0x095ea7b3ffff''\<rparr>"
  by (simp add: approvalRequest_def approveStep_def mkStep_def)

lemma scenario_approval:
  "handleApproval scenarioClient [] (Some approveStep)
     = ([SendTransaction (approvalRequest approveStep), WaitForTransactionReceipt ''0xhash''], Inr ())"
  by (rule handleApproval_approveStep_ok [where log = "[]", simplified])
     (simp_all add: scenarioClient_def approvalRequest_approveStep okReceipt_def)

lemma scenario_route1:
  "processRoute scenarioEnv [] route1 = (scenarioLog1, Inr (RouteFailed (External ''network error'')))"
proof -
  have "submitTransfer scenarioClient
          [SendTransaction (approvalRequest approveStep), WaitForTransactionReceipt ''0xhash'']
          (transferRequest ''0xpool1'')
        = (scenarioLog1, RouteFailed (External ''network error''))"
    unfolding scenarioLog1_def
    by (rule submitTransfer_send_fails [where log = "[a, b]" for a b, simplified])
       (simp add: scenarioClient_def transferRequest_def)
  with processRoute_submits [OF classify_route1, of scenarioEnv "[]"] scenario_approval
  show ?thesis by (simp add: scenarioEnv_simps build_quoted)
qed

text \<open>The end-to-end scenario of the specification: the first route fails at the
  submission of its transfer, the second is confirmed, the third is not attempted.\<close>

lemma routes_in_order_scenario:
  "filter isStargateRoute [route1, route2, route3] = [route1] @ route2 # [route3] \<and>
   processRoutes scenarioEnv [] [route1]
     = (scenarioLog1, [(''stargate/v2/taxi'', RouteFailed (External ''network error''))], Exhausted) \<and>
   main scenarioEnv [route1, route2, route3]
     = \<lparr>events = scenarioLog1 @ [SendTransaction (transferRequest ''0xpool2''),
                                  WaitForTransactionReceipt ''0xhash''],
        outcomes = [(''stargate/v2/taxi'', RouteFailed (External ''network error'')),
                    (''stargate/v2/bus'', Confirmed ''0xhash'' okReceipt)],
        failure = None, exitCode = 0\<rparr>"
proof -
  have rts: "filter isStargateRoute [route1, route2, route3] = [route1] @ route2 # [route3]"
    by (simp add: stargate_routes)
  have before: "processRoutes scenarioEnv [] [route1]
     = (scenarioLog1, [(''stargate/v2/taxi'', RouteFailed (External ''network error''))], Exhausted)"
    by (simp add: scenario_route1 route_names)
  have appr: "handleApproval (client scenarioEnv) scenarioLog1 None = (scenarioLog1, Inr ())"
    by (simp add: handleApproval_def)
  have build: "buildTransaction scenarioEnv (mkStep ''bridge'' quotedCalldata ''0xpool2'' ''42000'')
                 = Inr (transferRequest ''0xpool2'')"
    by (simp add: build_quoted scenarioEnv_simps)
  have send: "sendTransaction (client scenarioEnv) scenarioLog1 (transferRequest ''0xpool2'') = Inr ''0xhash''"
    by (simp add: scenarioEnv_simps scenarioClient_def transferRequest_def)
  have wait: "waitForTransactionReceipt (client scenarioEnv)
                (scenarioLog1 @ [SendTransaction (transferRequest ''0xpool2'')]) ''0xhash'' = Inr okReceipt"
    by (simp add: scenarioEnv_simps scenarioClient_def)
  from routes_in_order [OF rts before classify_route2 appr build,
      where h = "''0xhash''" and r = okReceipt] send wait
  have "main scenarioEnv [route1, route2, route3]
     = \<lparr>events = scenarioLog1 @ [SendTransaction (transferRequest ''0xpool2''),
                                  WaitForTransactionReceipt ''0xhash''],
        outcomes = [(''stargate/v2/taxi'', RouteFailed (External ''network error'')),
                    (''stargate/v2/bus'', Confirmed ''0xhash'' okReceipt)],
        failure = None, exitCode = 0\<rparr>"
    by (simp add: route_names)
  with rts before show ?thesis by simp
qed

text \<open>
  Claim C8. When the call data of the transfer step does not decode, the exception
  leaves the loop: the run ends with exit code 1 and no later route is attempted.
  An exception caught while submitting the transfer only fails that route.
\<close>

theorem decode_failure_is_fatal:
  assumes rts: "filter isStargateRoute quotes = pre @ q # post"
    and before: "processRoutes ev [] pre = (log1, ocs, Exhausted)"
    and cls: "classify (steps q) = (a, Some s, i)"
    and appr: "handleApproval (client ev) log1 a = (log2, Inr ())"
  shows "(decodeStargateCalldata (codec ev) (tx_data (transaction s)) = Inl e \<longrightarrow>
            main ev quotes = \<lparr>events = log2, outcomes = ocs, failure = Some e, exitCode = 1\<rparr>)
       \<and> (buildTransaction ev s = Inr req \<and>
          submitTransfer (client ev) log2 req = (logf, RouteFailed e') \<longrightarrow>
            events (main ev quotes) = fst (processRoutes ev logf post) \<and>
            outcomes (main ev quotes)
              = ocs @ (route q, RouteFailed e') # fst (snd (processRoutes ev logf post)))"
proof -
  have fatal: "decodeStargateCalldata (codec ev) (tx_data (transaction s)) = Inl e \<longrightarrow>
            main ev quotes = \<lparr>events = log2, outcomes = ocs, failure = Some e, exitCode = 1\<rparr>"
  proof
    assume "decodeStargateCalldata (codec ev) (tx_data (transaction s)) = Inl e"
    then have "buildTransaction ev s = Inl e" by (rule buildTransaction_decode_fails)
    then have "processRoute ev log1 q = (log2, Inl e)"
      by (rule processRoute_build_throws [OF cls appr])
    then show "main ev quotes = \<lparr>events = log2, outcomes = ocs, failure = Some e, exitCode = 1\<rparr>"
      by (rule main_route_throws [OF rts before])
  qed
  have scoped: "buildTransaction ev s = Inr req \<and>
          submitTransfer (client ev) log2 req = (logf, RouteFailed e') \<longrightarrow>
            events (main ev quotes) = fst (processRoutes ev logf post) \<and>
            outcomes (main ev quotes)
              = ocs @ (route q, RouteFailed e') # fst (snd (processRoutes ev logf post))"
  proof
    assume "buildTransaction ev s = Inr req \<and>
            submitTransfer (client ev) log2 req = (logf, RouteFailed e')"
    then have b: "buildTransaction ev s = Inr req"
      and su: "submitTransfer (client ev) log2 req = (logf, RouteFailed e')"
      by simp_all
    have "processRoute ev log1 q = (logf, Inr (RouteFailed e'))"
      by (rule processRoute_submits [OF cls appr b su])
    from main_route_continues [OF rts before this]
    show "events (main ev quotes) = fst (processRoutes ev logf post) \<and>
          outcomes (main ev quotes)
            = ocs @ (route q, RouteFailed e') # fst (snd (processRoutes ev logf post))"
      by simp
  qed
  from fatal scoped show ?thesis by (intro conjI)
qed

lemma classify_truncatedRoute:
  "classify (steps truncatedRoute) = (None, Some (mkStep ''bridge'' ''0xc7c7f5b3'' ''0xpool0'' ''0''), 0)"
  by (simp add: classify_def truncatedRoute_def mkQuote_def mkStep_def)

lemma decode_truncated:
  "decodeStargateCalldata viem ''0xc7c7f5b3'' = Inl (FailedToDecodeCalldata Malformed)"
  by (simp add: decodeStargateCalldata_def viem_def viem_decodeFunctionData_def hexToBytes_def
      hexVal_def decodeAbiParameters_def readWord_def)

theorem decode_failure_is_fatal_witness:
  "filter isStargateRoute [truncatedRoute, route2] = [] @ truncatedRoute # [route2] \<and>
   decodeStargateCalldata (codec okEnv) ''0xc7c7f5b3'' = Inl (FailedToDecodeCalldata Malformed) \<and>
   main okEnv [truncatedRoute, route2]
     = \<lparr>events = [], outcomes = [], failure = Some (FailedToDecodeCalldata Malformed), exitCode = 1\<rparr> \<and>
   submitTransfer (client scenarioEnv)
       [SendTransaction (approvalRequest approveStep), WaitForTransactionReceipt ''0xhash'']
       (transferRequest ''0xpool1'')
     = (scenarioLog1, RouteFailed (External ''network error'')) \<and>
   outcomes (main scenarioEnv [route1, route2, route3])
     = (''stargate/v2/taxi'', RouteFailed (External ''network error''))
         # fst (snd (processRoutes scenarioEnv scenarioLog1 [route2, route3]))"
proof -
  have rts: "filter isStargateRoute [truncatedRoute, route2] = [] @ truncatedRoute # [route2]"
    by (simp add: stargate_routes)
  have before: "processRoutes ev [] [] = ([], [], Exhausted)" for ev by simp
  have appr: "handleApproval (client okEnv) [] None = ([], Inr ())"
    by (simp add: handleApproval_def)
  have dec: "decodeStargateCalldata (codec okEnv) ''0xc7c7f5b3'' = Inl (FailedToDecodeCalldata Malformed)"
    by (simp add: okEnv_simps decode_truncated)
  from decode_failure_is_fatal [OF rts before [of okEnv] classify_truncatedRoute appr,
      where e = "FailedToDecodeCalldata Malformed"] dec
  have fatal: "main okEnv [truncatedRoute, route2]
     = \<lparr>events = [], outcomes = [], failure = Some (FailedToDecodeCalldata Malformed), exitCode = 1\<rparr>"
    by (simp add: mkStep_def)
  have rts2: "filter isStargateRoute [route1, route2, route3] = [] @ route1 # [route2, route3]"
    by (simp add: stargate_routes)
  have appr2: "handleApproval (client scenarioEnv) [] (Some approveStep)
     = ([SendTransaction (approvalRequest approveStep), WaitForTransactionReceipt ''0xhash''], Inr ())"
    by (simp add: scenarioEnv_simps scenario_approval)
  have build: "buildTransaction scenarioEnv (mkStep ''bridge'' quotedCalldata ''0xpool1'' ''42000'')
                 = Inr (transferRequest ''0xpool1'')"
    by (simp add: build_quoted scenarioEnv_simps)
  have sub: "submitTransfer (client scenarioEnv)
       [SendTransaction (approvalRequest approveStep), WaitForTransactionReceipt ''0xhash'']
       (transferRequest ''0xpool1'')
     = (scenarioLog1, RouteFailed (External ''network error''))"
    by (simp add: submitTransfer_def scenarioEnv_simps scenarioClient_def transferRequest_def
        scenarioLog1_def)
  from decode_failure_is_fatal [OF rts2 before [of scenarioEnv] classify_route1 appr2,
      where req = "transferRequest ''0xpool1''" and ?e' = "External ''network error''"
        and logf = scenarioLog1] build sub
  have "outcomes (main scenarioEnv [route1, route2, route3])
     = (''stargate/v2/taxi'', RouteFailed (External ''network error''))
         # fst (snd (processRoutes scenarioEnv scenarioLog1 [route2, route3]))"
    by (simp add: route_names)
  with rts dec fatal sub show ?thesis by simp
qed

lemma handleApproval_send_fails:
  "sendTransaction cl log (approvalRequest ap) = Inl e \<Longrightarrow>
   handleApproval cl log (Some ap) = (log @ [SendTransaction (approvalRequest ap)], Inl e)"
  by (simp add: handleApproval_def)

lemma handleApproval_wait_fails:
  "sendTransaction cl log (approvalRequest ap) = Inr h \<Longrightarrow>
   waitForTransactionReceipt cl (log @ [SendTransaction (approvalRequest ap)]) h = Inl e \<Longrightarrow>
   handleApproval cl log (Some ap)
     = (log @ [SendTransaction (approvalRequest ap), WaitForTransactionReceipt h], Inl e)"
  by (simp add: handleApproval_def)

text \<open>
  The approval is sent and awaited outside the \<^verbatim>\<open>try\<close> of the loop body: an
  exception from sending it or from awaiting its receipt leaves the loop, the run ends
  with exit code 1, the route gets no outcome and no later route is attempted.
\<close>

lemma approval_failure_is_fatal:
  assumes rts: "filter isStargateRoute quotes = pre @ q # post"
    and before: "processRoutes ev [] pre = (log1, ocs, Exhausted)"
    and cls: "classify (steps q) = (Some ap, t, i)"
  shows "(sendTransaction (client ev) log1 (approvalRequest ap) = Inl e \<longrightarrow>
            main ev quotes
              = \<lparr>events = log1 @ [SendTransaction (approvalRequest ap)], outcomes = ocs,
                 failure = Some e, exitCode = 1\<rparr>)
       \<and> (sendTransaction (client ev) log1 (approvalRequest ap) = Inr h \<and>
          waitForTransactionReceipt (client ev) (log1 @ [SendTransaction (approvalRequest ap)]) h
            = Inl e \<longrightarrow>
            main ev quotes
              = \<lparr>events = log1 @ [SendTransaction (approvalRequest ap), WaitForTransactionReceipt h],
                 outcomes = ocs, failure = Some e, exitCode = 1\<rparr>)"
proof -
  have c1: "sendTransaction (client ev) log1 (approvalRequest ap) = Inl e \<longrightarrow>
            main ev quotes
              = \<lparr>events = log1 @ [SendTransaction (approvalRequest ap)], outcomes = ocs,
                 failure = Some e, exitCode = 1\<rparr>"
  proof
    assume "sendTransaction (client ev) log1 (approvalRequest ap) = Inl e"
    then have "handleApproval (client ev) log1 (Some ap)
                 = (log1 @ [SendTransaction (approvalRequest ap)], Inl e)"
      by (rule handleApproval_send_fails)
    then have "processRoute ev log1 q = (log1 @ [SendTransaction (approvalRequest ap)], Inl e)"
      by (rule processRoute_approval_throws [OF cls])
    then show "main ev quotes
              = \<lparr>events = log1 @ [SendTransaction (approvalRequest ap)], outcomes = ocs,
                 failure = Some e, exitCode = 1\<rparr>"
      by (rule main_route_throws [OF rts before])
  qed
  have c2: "sendTransaction (client ev) log1 (approvalRequest ap) = Inr h \<and>
          waitForTransactionReceipt (client ev) (log1 @ [SendTransaction (approvalRequest ap)]) h
            = Inl e \<longrightarrow>
            main ev quotes
              = \<lparr>events = log1 @ [SendTransaction (approvalRequest ap), WaitForTransactionReceipt h],
                 outcomes = ocs, failure = Some e, exitCode = 1\<rparr>"
  proof
    assume "sendTransaction (client ev) log1 (approvalRequest ap) = Inr h \<and>
          waitForTransactionReceipt (client ev) (log1 @ [SendTransaction (approvalRequest ap)]) h
            = Inl e"
    then have s: "sendTransaction (client ev) log1 (approvalRequest ap) = Inr h"
      and w: "waitForTransactionReceipt (client ev) (log1 @ [SendTransaction (approvalRequest ap)]) h
            = Inl e"
      by simp_all
    have "handleApproval (client ev) log1 (Some ap)
            = (log1 @ [SendTransaction (approvalRequest ap), WaitForTransactionReceipt h], Inl e)"
      by (rule handleApproval_wait_fails [OF s w])
    then have "processRoute ev log1 q
            = (log1 @ [SendTransaction (approvalRequest ap), WaitForTransactionReceipt h], Inl e)"
      by (rule processRoute_approval_throws [OF cls])
    then show "main ev quotes
              = \<lparr>events = log1 @ [SendTransaction (approvalRequest ap), WaitForTransactionReceipt h],
                 outcomes = ocs, failure = Some e, exitCode = 1\<rparr>"
      by (rule main_route_throws [OF rts before])
  qed
  from c1 c2 show ?thesis by (intro conjI)
qed

lemma rejecting_approval:
  "sendTransaction (client rejectingEnv) [] (approvalRequest approveStep)
     = Inl (External ''approval rejected'')"
  by (simp add: rejectingEnv_simps rejectingClient_def approvalRequest_approveStep)

lemma approval_failure_is_fatal_example:
  "filter isStargateRoute [route1, route2] = [] @ route1 # [route2] \<and>
   sendTransaction (client rejectingEnv) [] (approvalRequest approveStep)
     = Inl (External ''approval rejected'') \<and>
   main rejectingEnv [route1, route2]
     = \<lparr>events = [SendTransaction (approvalRequest approveStep)], outcomes = [],
        failure = Some (External ''approval rejected''), exitCode = 1\<rparr>"
proof -
  have rts: "filter isStargateRoute [route1, route2] = [] @ route1 # [route2]"
    by (simp add: stargate_routes)
  have before: "processRoutes rejectingEnv [] [] = ([], [], Exhausted)" by simp
  from approval_failure_is_fatal [OF rts before classify_route1,
      where e = "External ''approval rejected''"] rejecting_approval
  have "main rejectingEnv [route1, route2]
     = \<lparr>events = [SendTransaction (approvalRequest approveStep)], outcomes = [],
        failure = Some (External ''approval rejected''), exitCode = 1\<rparr>"
    by simp
  with rts rejecting_approval show ?thesis by simp
qed

text \<open>
  Claim C5. An error raised while submitting the approval should fail its route only and
  let the loop proceed to the next route, as an error raised while submitting the
  transfer does. The code does not do so: with a client that rejects the approval of the
  first route, the run stops there with exit code 1 and no outcome for the route; the
  second route, which the same client confirms when it is the only one, is never
  attempted.
\<close>

theorem approval_failure_aborts_run:
  "main rejectingEnv [route1, route2]
     = \<lparr>events = [SendTransaction (approvalRequest approveStep)], outcomes = [],
        failure = Some (External ''approval rejected''), exitCode = 1\<rparr> \<and>
   main rejectingEnv [route2]
     = \<lparr>events = [SendTransaction (transferRequest ''0xpool2''), WaitForTransactionReceipt ''0xhash''],
        outcomes = [(''stargate/v2/bus'', Confirmed ''0xhash'' okReceipt)],
        failure = None, exitCode = 0\<rparr>"
proof -
  have "processRoute rejectingEnv [] route1
          = ([SendTransaction (approvalRequest approveStep)], Inl (External ''approval rejected''))"
    using processRoute_approval_throws [OF classify_route1, of rejectingEnv "[]"]
      handleApproval_send_fails [OF rejecting_approval]
    by simp
  then have m1: "main rejectingEnv [route1, route2]
     = \<lparr>events = [SendTransaction (approvalRequest approveStep)], outcomes = [],
        failure = Some (External ''approval rejected''), exitCode = 1\<rparr>"
    by (simp add: main_def stargate_routes)
  have "processRoute rejectingEnv [] route2
          = ([] @ [SendTransaction (transferRequest ''0xpool2''), WaitForTransactionReceipt ''0xhash''],
             Inr (Confirmed ''0xhash'' okReceipt))"
    by (rule processRoute_route2_ok)
       (simp_all add: rejectingEnv_simps rejectingClient_def transferRequest_def)
  then have m2: "main rejectingEnv [route2]
     = \<lparr>events = [SendTransaction (transferRequest ''0xpool2''), WaitForTransactionReceipt ''0xhash''],
        outcomes = [(''stargate/v2/bus'', Confirmed ''0xhash'' okReceipt)],
        failure = None, exitCode = 0\<rparr>"
    by (simp add: main_def stargate_routes route_names)
  from m1 m2 show ?thesis by simp
qed

lemma revertingEnv_simps:
  "codec revertingEnv = viem" "client revertingEnv = revertingClient"
  "bigInt revertingEnv = decimalBigInt"
  by (simp_all add: revertingEnv_def)

lemma classify_route3:
  "classify (steps route3) = (None, Some (mkStep ''bridge'' quotedCalldata ''0xpool3'' ''42000''), 0)"
  by (simp add: classify_def route3_def mkQuote_def mkStep_def
      take10_quotedCalldata quotedCalldata_nonempty)

lemma reverting_route2:
  "processRoute revertingEnv [] route2
     = ([SendTransaction (transferRequest ''0xpool2''), WaitForTransactionReceipt ''0xpool2''],
        Inr (Confirmed ''0xpool2'' revertedReceipt))"
  by (simp add: processRoute_def classify_route2 handleApproval_def build_quoted submitTransfer_def
      revertingEnv_simps revertingClient_def transferRequest_def)

lemma reverting_route3:
  "processRoute revertingEnv [] route3
     = ([SendTransaction (transferRequest ''0xpool3''), WaitForTransactionReceipt ''0xpool3''],
        Inr (Confirmed ''0xpool3'' okReceipt))"
  by (simp add: processRoute_def classify_route3 handleApproval_def build_quoted submitTransfer_def
      revertingEnv_simps revertingClient_def transferRequest_def)

text \<open>
  Claim C3. A transfer whose confirmation fails should mark its route failed and let the
  loop go on with the next route; only a confirmed success should end the loop. The
  code ends the loop on every receipt that is returned: with a client that reports the
  transfer of the first route as reverted, the run stops after that route with exit
  code 0, and the next route, which the same client confirms with success when it is
  the only one, is never attempted.
\<close>

theorem reverted_receipt_ends_run:
  "status revertedReceipt = ''reverted'' \<and>
   main revertingEnv [route2, route3]
     = \<lparr>events = [SendTransaction (transferRequest ''0xpool2''),
                  WaitForTransactionReceipt ''0xpool2''],
        outcomes = [(''stargate/v2/bus'', Confirmed ''0xpool2'' revertedReceipt)],
        failure = None, exitCode = 0\<rparr> \<and>
   main revertingEnv [route3]
     = \<lparr>events = [SendTransaction (transferRequest ''0xpool3''),
                  WaitForTransactionReceipt ''0xpool3''],
        outcomes = [(''stargate/v2/oft'', Confirmed ''0xpool3'' okReceipt)],
        failure = None, exitCode = 0\<rparr>"
  by (simp add: main_def stargate_routes route_names reverting_route2 reverting_route3
      revertedReceipt_def)

text \<open>
  Claim C7, as amended. No transfer is submitted for a route without a transfer step.
  With no approval step either, nothing is sent, the route is skipped and the loop goes
  on with the next route. With an approval step, the approval is sent and awaited first,
  since the approval is handled before the absence of a transfer step is looked at; once
  it is confirmed, the route is skipped and the loop goes on with the next route.
\<close>

theorem no_transfer_route:
  assumes rts: "filter isStargateRoute quotes = pre @ q # post"
    and before: "processRoutes ev [] pre = (log1, ocs, Exhausted)"
    and cls: "classify (steps q) = (a, None, i)"
  shows "(a = None \<longrightarrow>
            events (main ev quotes) = fst (processRoutes ev log1 post) \<and>
            outcomes (main ev quotes)
              = ocs @ (route q, SkippedNoTransfer) # fst (snd (processRoutes ev log1 post)))
       \<and> (\<forall>ap h r. a = Some ap \<and>
            sendTransaction (client ev) log1 (approvalRequest ap) = Inr h \<and>
            waitForTransactionReceipt (client ev) (log1 @ [SendTransaction (approvalRequest ap)]) h
              = Inr r \<longrightarrow>
            events (main ev quotes)
              = fst (processRoutes ev
                       (log1 @ [SendTransaction (approvalRequest ap), WaitForTransactionReceipt h]) post) \<and>
            outcomes (main ev quotes)
              = ocs @ (route q, SkippedNoTransfer)
                  # fst (snd (processRoutes ev
                       (log1 @ [SendTransaction (approvalRequest ap), WaitForTransactionReceipt h]) post)))"
proof -
  have c1: "a = None \<longrightarrow>
            events (main ev quotes) = fst (processRoutes ev log1 post) \<and>
            outcomes (main ev quotes)
              = ocs @ (route q, SkippedNoTransfer) # fst (snd (processRoutes ev log1 post))"
  proof
    assume "a = None"
    then have "handleApproval (client ev) log1 a = (log1, Inr ())"
      by (simp add: handleApproval_def)
    then have "processRoute ev log1 q = (log1, Inr SkippedNoTransfer)"
      by (rule processRoute_no_transfer [OF cls])
    from main_route_continues [OF rts before this]
    show "events (main ev quotes) = fst (processRoutes ev log1 post) \<and>
          outcomes (main ev quotes)
            = ocs @ (route q, SkippedNoTransfer) # fst (snd (processRoutes ev log1 post))"
      by simp
  qed
  have c2: "a = Some ap \<and>
            sendTransaction (client ev) log1 (approvalRequest ap) = Inr h \<and>
            waitForTransactionReceipt (client ev) (log1 @ [SendTransaction (approvalRequest ap)]) h
              = Inr r \<longrightarrow>
            events (main ev quotes)
              = fst (processRoutes ev
                       (log1 @ [SendTransaction (approvalRequest ap), WaitForTransactionReceipt h]) post) \<and>
            outcomes (main ev quotes)
              = ocs @ (route q, SkippedNoTransfer)
                  # fst (snd (processRoutes ev
                       (log1 @ [SendTransaction (approvalRequest ap), WaitForTransactionReceipt h]) post))"
    for ap h r
  proof
    assume asm: "a = Some ap \<and>
            sendTransaction (client ev) log1 (approvalRequest ap) = Inr h \<and>
            waitForTransactionReceipt (client ev) (log1 @ [SendTransaction (approvalRequest ap)]) h
              = Inr r"
    then have "handleApproval (client ev) log1 a
                 = (log1 @ [SendTransaction (approvalRequest ap), WaitForTransactionReceipt h], Inr ())"
      by (simp add: handleApproval_def)
    then have "processRoute ev log1 q
                 = (log1 @ [SendTransaction (approvalRequest ap), WaitForTransactionReceipt h],
                    Inr SkippedNoTransfer)"
      by (rule processRoute_no_transfer [OF cls])
    from main_route_continues [OF rts before this]
    show "events (main ev quotes)
              = fst (processRoutes ev
                       (log1 @ [SendTransaction (approvalRequest ap), WaitForTransactionReceipt h]) post) \<and>
            outcomes (main ev quotes)
              = ocs @ (route q, SkippedNoTransfer)
                  # fst (snd (processRoutes ev
                       (log1 @ [SendTransaction (approvalRequest ap), WaitForTransactionReceipt h]) post))"
      by simp
  qed
  from c1 c2 show ?thesis by blast
qed

lemma classify_approveOnlyRoute:
  "classify (steps approveOnlyRoute) = (Some approveStep, None, - 1)"
  by (simp add: classify_def approveOnlyRoute_def mkQuote_def approveStep_def mkStep_def)

lemma okClient_approval:
  "sendTransaction (client okEnv) log (approvalRequest approveStep) = Inr ''0xhash''"
  "waitForTransactionReceipt (client okEnv) log' h = Inr okReceipt"
  by (simp_all add: okEnv_simps okClient_def)

lemma classify_unrelatedRoute: "classify (steps unrelatedRoute) = (None, None, - 1)"
  by (simp add: classify_def unrelatedRoute_def mkQuote_def stepB_def mkStep_def)

lemma more_stargate_routes:
  "isStargateRoute unrelatedRoute" "isStargateRoute approveTruncatedRoute"
  "isStargateRoute badValueRoute"
  by (simp_all add: isStargateRoute_def unrelatedRoute_def approveTruncatedRoute_def
      badValueRoute_def mkQuote_def)

lemma more_route_names:
  "route approveOnlyRoute = ''stargate/v2/approve-only''"
  "route unrelatedRoute = ''stargate/v2/unrelated''"
  "route truncatedRoute = ''stargate/v2/truncated''"
  "route approveTruncatedRoute = ''stargate/v2/approve-truncated''"
  "route badValueRoute = ''stargate/v2/bad-value''"
  by (simp_all add: approveOnlyRoute_def unrelatedRoute_def truncatedRoute_def
      approveTruncatedRoute_def badValueRoute_def mkQuote_def)

lemma ok_approval:
  "handleApproval okClient [] (Some approveStep) = (approvalLog, Inr ())"
  by (simp add: handleApproval_def okClient_def approvalLog_def)

lemma ok_approveOnlyRoute:
  "processRoute okEnv [] approveOnlyRoute = (approvalLog, Inr SkippedNoTransfer)"
  using processRoute_no_transfer [OF classify_approveOnlyRoute, of okEnv "[]"] ok_approval
  by (simp add: okEnv_simps)

lemma ok_route2_after:
  "processRoutes okEnv approvalLog [route2]
     = (approvalLog @ [SendTransaction (transferRequest ''0xpool2''), WaitForTransactionReceipt ''0xhash''],
        [(''stargate/v2/bus'', Confirmed ''0xhash'' okReceipt)], Broke)"
proof -
  have "processRoute okEnv approvalLog route2
     = (approvalLog @ [SendTransaction (transferRequest ''0xpool2''), WaitForTransactionReceipt ''0xhash''],
        Inr (Confirmed ''0xhash'' okReceipt))"
    by (rule processRoute_route2_ok) (simp_all add: okEnv_simps okClient_def)
  then show ?thesis by (simp add: route_names)
qed

theorem no_transfer_route_witness:
  "filter isStargateRoute [approveOnlyRoute, unrelatedRoute, route2]
     = [approveOnlyRoute] @ unrelatedRoute # [route2] \<and>
   classify (steps approveOnlyRoute) = (Some approveStep, None, - 1) \<and>
   classify (steps unrelatedRoute) = (None, None, - 1) \<and>
   processRoutes okEnv [] [approveOnlyRoute]
     = (approvalLog, [(''stargate/v2/approve-only'', SkippedNoTransfer)], Exhausted) \<and>
   events (main okEnv [approveOnlyRoute, unrelatedRoute, route2])
     = approvalLog @ [SendTransaction (transferRequest ''0xpool2''), WaitForTransactionReceipt ''0xhash''] \<and>
   outcomes (main okEnv [approveOnlyRoute, unrelatedRoute, route2])
     = [(''stargate/v2/approve-only'', SkippedNoTransfer),
        (''stargate/v2/unrelated'', SkippedNoTransfer),
        (''stargate/v2/bus'', Confirmed ''0xhash'' okReceipt)] \<and>
   outcomes (main okEnv [approveOnlyRoute, route2])
     = [(''stargate/v2/approve-only'', SkippedNoTransfer),
        (''stargate/v2/bus'', Confirmed ''0xhash'' okReceipt)]"
proof -
  have rts: "filter isStargateRoute [approveOnlyRoute, unrelatedRoute, route2]
     = [approveOnlyRoute] @ unrelatedRoute # [route2]"
    by (simp add: stargate_routes more_stargate_routes)
  have before: "processRoutes okEnv [] [approveOnlyRoute]
     = (approvalLog, [(''stargate/v2/approve-only'', SkippedNoTransfer)], Exhausted)"
    by (simp add: ok_approveOnlyRoute more_route_names)
  from no_transfer_route [OF rts before classify_unrelatedRoute]
  have skip: "events (main okEnv [approveOnlyRoute, unrelatedRoute, route2])
           = fst (processRoutes okEnv approvalLog [route2]) \<and>
         outcomes (main okEnv [approveOnlyRoute, unrelatedRoute, route2])
           = [(''stargate/v2/approve-only'', SkippedNoTransfer)]
               @ (route unrelatedRoute, SkippedNoTransfer)
                   # fst (snd (processRoutes okEnv approvalLog [route2]))"
    by simp
  have rts2: "filter isStargateRoute [approveOnlyRoute, route2] = [] @ approveOnlyRoute # [route2]"
    by (simp add: stargate_routes)
  have before2: "processRoutes okEnv [] [] = ([], [], Exhausted)" by simp
  from no_transfer_route [OF rts2 before2 classify_approveOnlyRoute] okClient_approval
  have appr: "outcomes (main okEnv [approveOnlyRoute, route2])
           = (route approveOnlyRoute, SkippedNoTransfer)
               # fst (snd (processRoutes okEnv approvalLog [route2]))"
    by (simp add: approvalLog_def)
  from skip [unfolded ok_route2_after] appr [unfolded ok_route2_after]
  have "events (main okEnv [approveOnlyRoute, unrelatedRoute, route2])
     = approvalLog @ [SendTransaction (transferRequest ''0xpool2''), WaitForTransactionReceipt ''0xhash''] \<and>
   outcomes (main okEnv [approveOnlyRoute, unrelatedRoute, route2])
     = [(''stargate/v2/approve-only'', SkippedNoTransfer),
        (''stargate/v2/unrelated'', SkippedNoTransfer),
        (''stargate/v2/bus'', Confirmed ''0xhash'' okReceipt)] \<and>
   outcomes (main okEnv [approveOnlyRoute, route2])
     = [(''stargate/v2/approve-only'', SkippedNoTransfer),
        (''stargate/v2/bus'', Confirmed ''0xhash'' okReceipt)]"
    by (simp add: more_route_names)
  with rts classify_approveOnlyRoute classify_unrelatedRoute before
  show ?thesis by (intro conjI) (simp_all only: simp_thms)
qed

text \<open>
  A route holding an approval step and no transfer step: the approval transaction is
  submitted, then the route is skipped.
\<close>

theorem no_transfer_route_counterexample:
  "classify (steps approveOnlyRoute) = (Some approveStep, None, - 1) \<and>
   processRoute okEnv [] approveOnlyRoute
     = ([SendTransaction (approvalRequest approveStep), WaitForTransactionReceipt ''0xhash''],
        Inr SkippedNoTransfer)"
proof -
  have "handleApproval (client okEnv) [] (Some approveStep)
          = ([SendTransaction (approvalRequest approveStep), WaitForTransactionReceipt ''0xhash''], Inr ())"
    by (simp add: handleApproval_def okClient_approval)
  from processRoute_no_transfer [OF classify_approveOnlyRoute this] classify_approveOnlyRoute
  show ?thesis by simp
qed

text \<open>
  Claim C10. The approval is submitted with the target and the call data of its step and
  no value, whatever value the step carries. When the approval is confirmed and the
  route reaches the submission of its transfer, the transfer is submitted next, with the
  target of its step and the value of its step, and it is the only transfer submitted.
\<close>

theorem approval_value_dropped:
  assumes cls: "classify (steps q) = (Some ap, t, i)"
  shows "(\<exists>rest. fst (processRoute ev log q)
                   = log @ SendTransaction \<lparr>req_to = tx_to (transaction ap), req_value = None,
                                            req_data = tx_data (transaction ap)\<rparr> # rest)
       \<and> (\<forall>s h r req. t = Some s \<and>
            sendTransaction (client ev) log (approvalRequest ap) = Inr h \<and>
            waitForTransactionReceipt (client ev) (log @ [SendTransaction (approvalRequest ap)]) h
              = Inr r \<and>
            buildTransaction ev s = Inr req \<longrightarrow>
            (\<exists>v rest. bigInt ev (tx_value (transaction s)) = Inr v \<and>
               req_to req = tx_to (transaction s) \<and> req_value req = Some v \<and>
               fst (processRoute ev log q)
                 = log @ [SendTransaction \<lparr>req_to = tx_to (transaction ap), req_value = None,
                                           req_data = tx_data (transaction ap)\<rparr>,
                          WaitForTransactionReceipt h, SendTransaction req] @ rest \<and>
               (\<forall>x. SendTransaction x \<notin> set rest)))"
proof -
  obtain log1 res where ha: "handleApproval (client ev) log (Some ap) = (log1, res)"
    by (cases "handleApproval (client ev) log (Some ap)")
  from handleApproval_Some_log [OF ha] obtain rest where
    log1: "log1 = log @ SendTransaction (approvalRequest ap) # rest" by blast
  have "\<exists>rest'. fst (processRoute ev log q) = log @ SendTransaction (approvalRequest ap) # rest'"
  proof (cases res)
    case (Inl e)
    with cls ha log1 show ?thesis by (simp add: processRoute_def)
  next
    case (Inr u)
    show ?thesis
    proof (cases t)
      case None
      with cls ha log1 Inr show ?thesis by (simp add: processRoute_def)
    next
      case (Some s)
      show ?thesis
      proof (cases "buildTransaction ev s")
        case (Inl e)
        with cls ha log1 Inr Some show ?thesis by (simp add: processRoute_def)
      next
        case b: (Inr req)
        obtain l oc where sub: "submitTransfer (client ev) log1 req = (l, oc)"
          by (cases "submitTransfer (client ev) log1 req")
        from submitTransfer_log [OF sub] obtain rest2 where "l = log1 @ SendTransaction req # rest2"
          by blast
        with cls ha log1 Inr Some b sub show ?thesis by (simp add: processRoute_def)
      qed
    qed
  qed
  then have first: "\<exists>rest. fst (processRoute ev log q)
                   = log @ SendTransaction \<lparr>req_to = tx_to (transaction ap), req_value = None,
                                            req_data = tx_data (transaction ap)\<rparr> # rest"
    by (simp add: approvalRequest_def)
  have second: "\<exists>v rest. bigInt ev (tx_value (transaction s)) = Inr v \<and>
               req_to req = tx_to (transaction s) \<and> req_value req = Some v \<and>
               fst (processRoute ev log q)
                 = log @ [SendTransaction \<lparr>req_to = tx_to (transaction ap), req_value = None,
                                           req_data = tx_data (transaction ap)\<rparr>,
                          WaitForTransactionReceipt h, SendTransaction req] @ rest \<and>
               (\<forall>x. SendTransaction x \<notin> set rest)"
    if asm: "t = Some s \<and>
            sendTransaction (client ev) log (approvalRequest ap) = Inr h \<and>
            waitForTransactionReceipt (client ev) (log @ [SendTransaction (approvalRequest ap)]) h
              = Inr r \<and>
            buildTransaction ev s = Inr req" for s h r req
  proof -
    from asm have t: "t = Some s" and build: "buildTransaction ev s = Inr req" by simp_all
    from asm have appr: "handleApproval (client ev) log (Some ap)
        = (log @ [SendTransaction (approvalRequest ap), WaitForTransactionReceipt h], Inr ())"
      by (simp add: handleApproval_def)
    obtain l oc where sub: "submitTransfer (client ev)
        (log @ [SendTransaction (approvalRequest ap), WaitForTransactionReceipt h]) req = (l, oc)"
      by (cases "submitTransfer (client ev)
        (log @ [SendTransaction (approvalRequest ap), WaitForTransactionReceipt h]) req")
    from submitTransfer_log [OF sub] obtain rest where
      l: "l = (log @ [SendTransaction (approvalRequest ap), WaitForTransactionReceipt h])
              @ SendTransaction req # rest"
      and rest: "\<forall>x. SendTransaction x \<notin> set rest" by blast
    from cls t have cls': "classify (steps q) = (Some ap, Some s, i)" by simp
    from processRoute_submits [OF cls' appr build sub]
    have run: "fst (processRoute ev log q) = l" by simp
    from build have "\<exists>v. bigInt ev (tx_value (transaction s)) = Inr v \<and>
        req_to req = tx_to (transaction s) \<and> req_value req = Some v"
      by (auto simp: buildTransaction_def Let_def split: sum.splits)
    then obtain v where
      big: "bigInt ev (tx_value (transaction s)) = Inr v"
      and "req_to req = tx_to (transaction s)" "req_value req = Some v"
      by blast
    then have "req_to req = tx_to (transaction s)" "req_value req = Some v" by simp_all
    moreover from run l have "fst (processRoute ev log q)
                 = log @ [SendTransaction \<lparr>req_to = tx_to (transaction ap), req_value = None,
                                           req_data = tx_data (transaction ap)\<rparr>,
                          WaitForTransactionReceipt h, SendTransaction req] @ rest"
      by (simp add: approvalRequest_def)
    ultimately show ?thesis using big rest by blast
  qed
  from first second show ?thesis by blast
qed

theorem approval_value_dropped_witness:
  "classify (steps route1)
     = (Some approveStep, Some (mkStep ''bridge'' quotedCalldata ''0xpool1'' ''42000''), 1) \<and>
   tx_value (transaction approveStep) = ''9'' \<and>
   buildTransaction okEnv (mkStep ''bridge'' quotedCalldata ''0xpool1'' ''42000'')
     = Inr (transferRequest ''0xpool1'') \<and>
   req_value (transferRequest ''0xpool1'') = Some 42000 \<and>
   (\<exists>rest. fst (processRoute okEnv [] route1)
             = [SendTransaction \<lparr>req_to = ''0xtoken'', req_value = None,
                                 req_data = ''0x095ea7b3ffff''\<rparr>,
                WaitForTransactionReceipt ''0xhash'',
                SendTransaction (transferRequest ''0xpool1'')] @ rest \<and>
             (\<forall>x. SendTransaction x \<notin> set rest))"
proof -
  have build: "buildTransaction okEnv (mkStep ''bridge'' quotedCalldata ''0xpool1'' ''42000'')
     = Inr (transferRequest ''0xpool1'')"
    by (simp add: build_quoted okEnv_simps)
  have val: "tx_value (transaction approveStep) = ''9''"
    by (simp add: approveStep_def mkStep_def)
  have tv: "req_value (transferRequest ''0xpool1'') = Some 42000"
    by (simp add: transferRequest_def)
  from approval_value_dropped [OF classify_route1, of okEnv "[]"] build okClient_approval
  have "\<exists>rest. fst (processRoute okEnv [] route1)
             = [SendTransaction \<lparr>req_to = ''0xtoken'', req_value = None,
                                 req_data = ''0x095ea7b3ffff''\<rparr>,
                WaitForTransactionReceipt ''0xhash'',
                SendTransaction (transferRequest ''0xpool1'')] @ rest \<and>
             (\<forall>x. SendTransaction x \<notin> set rest)"
    by (auto simp: approveStep_def mkStep_def)
  with classify_route1 val build tv show ?thesis by (intro conjI) (simp_all only: simp_thms)
qed

lemma handleApproval_ok_log:
  assumes "handleApproval cl log a = (log', Inr ())"
  shows "(a = None \<longrightarrow> log' = log) \<and>
         (\<forall>ap. a = Some ap \<longrightarrow>
            (\<exists>h. log' = log @ [SendTransaction (approvalRequest ap), WaitForTransactionReceipt h]))"
  using assms by (auto simp: handleApproval_def Let_def split: option.splits sum.splits)

text \<open>
  Claim C6, as amended. After encoding with the override, the call data is decoded
  again. If that decoding throws, the run ends with exit code 1: no transfer is
  submitted for the route, whose only ledger calls are those of its approval when it has
  one, and no later route is attempted. If it returns, what it returns changes nothing:
  the decoded refund address is only printed, the decoded parameters and fee are not
  looked at, and the value of the step is read next. If reading the value throws, the
  run ends with exit code 1 in the same way; otherwise the transfer is submitted with
  the encoded call data.
\<close>

theorem verification_is_not_enforced:
  assumes rts: "filter isStargateRoute quotes = pre @ q # post"
    and before: "processRoutes ev [] pre = (log1, ocs, Exhausted)"
    and cls: "classify (steps q) = (a, Some s, i)"
    and appr: "handleApproval (client ev) log1 a = (log2, Inr ())"
    and dec: "decodeStargateCalldata (codec ev) (tx_data (transaction s)) = Inr d"
  shows "(decodeStargateCalldata (codec ev)
            (encodeStargateCalldata (codec ev) (sendParam d) (fee d) customRefundAddress) = Inl e \<longrightarrow>
            main ev quotes = \<lparr>events = log2, outcomes = ocs, failure = Some e, exitCode = 1\<rparr>)
       \<and> (decodeStargateCalldata (codec ev)
            (encodeStargateCalldata (codec ev) (sendParam d) (fee d) customRefundAddress) = Inr vd \<and>
          bigInt ev (tx_value (transaction s)) = Inl e \<longrightarrow>
            main ev quotes = \<lparr>events = log2, outcomes = ocs, failure = Some e, exitCode = 1\<rparr>)
       \<and> (decodeStargateCalldata (codec ev)
            (encodeStargateCalldata (codec ev) (sendParam d) (fee d) customRefundAddress) = Inr vd \<and>
          bigInt ev (tx_value (transaction s)) = Inr v \<longrightarrow>
            processRoute ev log1 q
              = (case submitTransfer (client ev) log2
                        \<lparr>req_to = tx_to (transaction s), req_value = Some v,
                         req_data = encodeStargateCalldata (codec ev) (sendParam d) (fee d)
                                      customRefundAddress\<rparr>
                 of (l, oc) \<Rightarrow> (l, Inr oc)) \<and>
            (\<exists>rest. fst (processRoute ev log1 q)
                      = log2 @ SendTransaction
                                 \<lparr>req_to = tx_to (transaction s), req_value = Some v,
                                  req_data = encodeStargateCalldata (codec ev) (sendParam d) (fee d)
                                               customRefundAddress\<rparr> # rest))
       \<and> (a = None \<longrightarrow> log2 = log1)
       \<and> (\<forall>ap. a = Some ap \<longrightarrow>
            (\<exists>h. log2 = log1 @ [SendTransaction (approvalRequest ap), WaitForTransactionReceipt h]))"
proof -
  have c1: "decodeStargateCalldata (codec ev)
            (encodeStargateCalldata (codec ev) (sendParam d) (fee d) customRefundAddress) = Inl e \<longrightarrow>
            main ev quotes = \<lparr>events = log2, outcomes = ocs, failure = Some e, exitCode = 1\<rparr>"
  proof
    assume "decodeStargateCalldata (codec ev)
            (encodeStargateCalldata (codec ev) (sendParam d) (fee d) customRefundAddress) = Inl e"
    with dec have "buildTransaction ev s = Inl e" by (simp add: buildTransaction_def)
    then have "processRoute ev log1 q = (log2, Inl e)"
      by (rule processRoute_build_throws [OF cls appr])
    then show "main ev quotes = \<lparr>events = log2, outcomes = ocs, failure = Some e, exitCode = 1\<rparr>"
      by (rule main_route_throws [OF rts before])
  qed
  have c2: "decodeStargateCalldata (codec ev)
            (encodeStargateCalldata (codec ev) (sendParam d) (fee d) customRefundAddress) = Inr vd \<and>
          bigInt ev (tx_value (transaction s)) = Inl e \<longrightarrow>
            main ev quotes = \<lparr>events = log2, outcomes = ocs, failure = Some e, exitCode = 1\<rparr>"
  proof
    assume "decodeStargateCalldata (codec ev)
            (encodeStargateCalldata (codec ev) (sendParam d) (fee d) customRefundAddress) = Inr vd \<and>
          bigInt ev (tx_value (transaction s)) = Inl e"
    with dec have "buildTransaction ev s = Inl e" by (simp add: buildTransaction_def)
    then have "processRoute ev log1 q = (log2, Inl e)"
      by (rule processRoute_build_throws [OF cls appr])
    then show "main ev quotes = \<lparr>events = log2, outcomes = ocs, failure = Some e, exitCode = 1\<rparr>"
      by (rule main_route_throws [OF rts before])
  qed
  have c3: "decodeStargateCalldata (codec ev)
            (encodeStargateCalldata (codec ev) (sendParam d) (fee d) customRefundAddress) = Inr vd \<and>
          bigInt ev (tx_value (transaction s)) = Inr v \<longrightarrow>
            processRoute ev log1 q
              = (case submitTransfer (client ev) log2
                        \<lparr>req_to = tx_to (transaction s), req_value = Some v,
                         req_data = encodeStargateCalldata (codec ev) (sendParam d) (fee d)
                                      customRefundAddress\<rparr>
                 of (l, oc) \<Rightarrow> (l, Inr oc)) \<and>
            (\<exists>rest. fst (processRoute ev log1 q)
                      = log2 @ SendTransaction
                                 \<lparr>req_to = tx_to (transaction s), req_value = Some v,
                                  req_data = encodeStargateCalldata (codec ev) (sendParam d) (fee d)
                                               customRefundAddress\<rparr> # rest)"
  proof
    define req where "req = \<lparr>req_to = tx_to (transaction s), req_value = Some v,
                         req_data = encodeStargateCalldata (codec ev) (sendParam d) (fee d)
                                      customRefundAddress\<rparr>"
    assume "decodeStargateCalldata (codec ev)
            (encodeStargateCalldata (codec ev) (sendParam d) (fee d) customRefundAddress) = Inr vd \<and>
          bigInt ev (tx_value (transaction s)) = Inr v"
    with dec have build: "buildTransaction ev s = Inr req"
      by (simp add: buildTransaction_def req_def)
    obtain l oc where sub: "submitTransfer (client ev) log2 req = (l, oc)"
      by (cases "submitTransfer (client ev) log2 req")
    from submitTransfer_log [OF sub] obtain rest where l: "l = log2 @ SendTransaction req # rest"
      by blast
    from processRoute_submits [OF cls appr build sub] have run: "processRoute ev log1 q = (l, Inr oc)" .
    from run sub l
    have "processRoute ev log1 q = (case submitTransfer (client ev) log2 req of (l, oc) \<Rightarrow> (l, Inr oc)) \<and>
          (\<exists>rest. fst (processRoute ev log1 q) = log2 @ SendTransaction req # rest)"
      by simp
    then show "processRoute ev log1 q
              = (case submitTransfer (client ev) log2
                        \<lparr>req_to = tx_to (transaction s), req_value = Some v,
                         req_data = encodeStargateCalldata (codec ev) (sendParam d) (fee d)
                                      customRefundAddress\<rparr>
                 of (l, oc) \<Rightarrow> (l, Inr oc)) \<and>
            (\<exists>rest. fst (processRoute ev log1 q)
                      = log2 @ SendTransaction
                                 \<lparr>req_to = tx_to (transaction s), req_value = Some v,
                                  req_data = encodeStargateCalldata (codec ev) (sendParam d) (fee d)
                                               customRefundAddress\<rparr> # rest)"
      unfolding req_def .
  qed
  from handleApproval_ok_log [OF appr]
  have c4: "a = None \<longrightarrow> log2 = log1"
    and c5: "\<forall>ap. a = Some ap \<longrightarrow>
            (\<exists>h. log2 = log1 @ [SendTransaction (approvalRequest ap), WaitForTransactionReceipt h])"
    by simp_all
  from c1 c2 c3 c4 c5 show ?thesis by (intro conjI)
qed

lemma inconsistentEnv_simps:
  "codec inconsistentEnv = inconsistentCodec" "client inconsistentEnv = okClient"
  "bigInt inconsistentEnv = decimalBigInt"
  by (simp_all add: inconsistentEnv_def)

lemma inconsistent_first_decode:
  "decodeStargateCalldata inconsistentCodec ''0xc7c7f5b3''
     = Inr \<lparr>sendParam = maxSendParam, fee = maxFee, refundAddress = quotedRefund\<rparr>"
  by (simp add: decodeStargateCalldata_def inconsistentCodec_def)

lemma inconsistent_encode:
  "encodeStargateCalldata inconsistentCodec sp f r = ''0xc7c7f5b3ff''"
  by (simp add: encodeStargateCalldata_def inconsistentCodec_def)

lemma inconsistent_second_decode:
  "decodeStargateCalldata inconsistentCodec ''0xc7c7f5b3ff''
     = Inr \<lparr>sendParam = quotedParam, fee = quotedFee, refundAddress = quotedRefund\<rparr>"
  by (simp add: decodeStargateCalldata_def inconsistentCodec_def)

lemma mismatch_facts:
  "quotedRefund \<noteq> customRefundAddress" "quotedParam \<noteq> maxSendParam" "quotedFee \<noteq> maxFee"
  by (simp_all add: quotedRefund_def customRefundAddress_def quotedParam_def maxSendParam_def
      quotedFee_def maxFee_def)

lemma inconsistent_run:
  "processRoute inconsistentEnv [] truncatedRoute
     = ([SendTransaction \<lparr>req_to = ''0xpool0'', req_value = Some 0, req_data = ''0xc7c7f5b3ff''\<rparr>,
         WaitForTransactionReceipt ''0xhash''],
        Inr (Confirmed ''0xhash'' okReceipt))"
  by (simp add: processRoute_def classify_truncatedRoute handleApproval_def buildTransaction_def
      inconsistentEnv_simps mkStep_def inconsistent_first_decode inconsistent_encode
      inconsistent_second_decode decimalBigInt_def submitTransfer_def okClient_def)

lemma classify_approveTruncatedRoute:
  "classify (steps approveTruncatedRoute)
     = (Some approveStep, Some (mkStep ''bridge'' ''0xc7c7f5b3'' ''0xpool0'' ''0''), 1)"
  by (simp add: classify_def approveTruncatedRoute_def mkQuote_def approveStep_def mkStep_def)

lemma classify_badValueRoute:
  "classify (steps badValueRoute) = (None, Some (mkStep ''bridge'' ''0xc7c7f5b3'' ''0xpool0'' ''1e18''), 0)"
  by (simp add: classify_def badValueRoute_def mkQuote_def mkStep_def)

lemma lossyEnv_simps:
  "codec lossyEnv = lossyCodec" "client lossyEnv = okClient" "bigInt lossyEnv = decimalBigInt"
  by (simp_all add: lossyEnv_def)

lemma decimalBigInt_1e18: "decimalBigInt ''1e18'' = Inl (External ''SyntaxError'')"
  by (simp add: decimalBigInt_def)

text \<open>
  With a codec whose second decoding disagrees with what was encoded, in the refund
  address, the parameters and the fee, the transfer is submitted all the same and the
  run ends with exit code 0.
\<close>

theorem verification_mismatch_counterexample:
  "decodeStargateCalldata (codec inconsistentEnv) ''0xc7c7f5b3''
     = Inr \<lparr>sendParam = maxSendParam, fee = maxFee, refundAddress = quotedRefund\<rparr> \<and>
   decodeStargateCalldata (codec inconsistentEnv)
       (encodeStargateCalldata (codec inconsistentEnv) maxSendParam maxFee customRefundAddress)
     = Inr \<lparr>sendParam = quotedParam, fee = quotedFee, refundAddress = quotedRefund\<rparr> \<and>
   quotedRefund \<noteq> customRefundAddress \<and> quotedParam \<noteq> maxSendParam \<and> quotedFee \<noteq> maxFee \<and>
   main inconsistentEnv [truncatedRoute]
     = \<lparr>events = [SendTransaction \<lparr>req_to = ''0xpool0'', req_value = Some 0,
                                    req_data = ''0xc7c7f5b3ff''\<rparr>,
                  WaitForTransactionReceipt ''0xhash''],
        outcomes = [(''stargate/v2/truncated'', Confirmed ''0xhash'' okReceipt)],
        failure = None, exitCode = 0\<rparr>"
proof -
  have "main inconsistentEnv [truncatedRoute]
     = \<lparr>events = [SendTransaction \<lparr>req_to = ''0xpool0'', req_value = Some 0,
                                    req_data = ''0xc7c7f5b3ff''\<rparr>,
                  WaitForTransactionReceipt ''0xhash''],
        outcomes = [(''stargate/v2/truncated'', Confirmed ''0xhash'' okReceipt)],
        failure = None, exitCode = 0\<rparr>"
    by (simp add: main_def stargate_routes inconsistent_run) (simp add: truncatedRoute_def mkQuote_def)
  then show ?thesis
    by (simp add: inconsistentEnv_simps inconsistent_first_decode inconsistent_encode
        inconsistent_second_decode mismatch_facts)
qed

theorem verification_is_not_enforced_witness:
  "filter isStargateRoute [approveTruncatedRoute, route2] = [] @ approveTruncatedRoute # [route2] \<and>
   handleApproval okClient [] (Some approveStep) = (approvalLog, Inr ()) \<and>
   decodeStargateCalldata (codec lossyEnv)
       (encodeStargateCalldata (codec lossyEnv) maxSendParam maxFee customRefundAddress)
     = Inl (FailedToDecodeCalldata Malformed) \<and>
   main lossyEnv [approveTruncatedRoute, route2]
     = \<lparr>events = approvalLog, outcomes = [], failure = Some (FailedToDecodeCalldata Malformed),
        exitCode = 1\<rparr> \<and>
   decodeStargateCalldata (codec inconsistentEnv)
       (encodeStargateCalldata (codec inconsistentEnv) maxSendParam maxFee customRefundAddress)
     = Inr \<lparr>sendParam = quotedParam, fee = quotedFee, refundAddress = quotedRefund\<rparr> \<and>
   bigInt inconsistentEnv ''0'' = Inr 0 \<and>
   (\<exists>rest. fst (processRoute inconsistentEnv [] approveTruncatedRoute)
             = approvalLog @ SendTransaction \<lparr>req_to = ''0xpool0'', req_value = Some 0,
                                              req_data = ''0xc7c7f5b3ff''\<rparr> # rest) \<and>
   bigInt inconsistentEnv ''1e18'' = Inl (External ''SyntaxError'') \<and>
   main inconsistentEnv [badValueRoute, route2]
     = \<lparr>events = [], outcomes = [], failure = Some (External ''SyntaxError''), exitCode = 1\<rparr>"
proof -
  have rts: "filter isStargateRoute [approveTruncatedRoute, route2] = [] @ approveTruncatedRoute # [route2]"
    by (simp add: stargate_routes more_stargate_routes)
  have before: "processRoutes ev [] [] = ([], [], Exhausted)" for ev by simp
  have apprL: "handleApproval (client lossyEnv) [] (Some approveStep) = (approvalLog, Inr ())"
    by (simp add: lossyEnv_simps ok_approval)
  have decL: "decodeStargateCalldata (codec lossyEnv)
               (tx_data (transaction (mkStep ''bridge'' ''0xc7c7f5b3'' ''0xpool0'' ''0'')))
     = Inr \<lparr>sendParam = maxSendParam, fee = maxFee, refundAddress = quotedRefund\<rparr>"
    by (simp add: mkStep_def lossyEnv_simps lossyCodec_def decodeStargateCalldata_def)
  have vdL: "decodeStargateCalldata (codec lossyEnv)
       (encodeStargateCalldata (codec lossyEnv) maxSendParam maxFee customRefundAddress)
     = Inl (FailedToDecodeCalldata Malformed)"
    by (simp add: lossyEnv_simps lossyCodec_def decodeStargateCalldata_def encodeStargateCalldata_def)
  from verification_is_not_enforced [OF rts before [of lossyEnv] classify_approveTruncatedRoute
      apprL decL, where e = "FailedToDecodeCalldata Malformed"] vdL
  have w1: "main lossyEnv [approveTruncatedRoute, route2]
     = \<lparr>events = approvalLog, outcomes = [], failure = Some (FailedToDecodeCalldata Malformed),
        exitCode = 1\<rparr>"
    by simp
  have apprI: "handleApproval (client inconsistentEnv) [] (Some approveStep) = (approvalLog, Inr ())"
    by (simp add: inconsistentEnv_simps ok_approval)
  have decI: "decodeStargateCalldata (codec inconsistentEnv)
               (tx_data (transaction (mkStep ''bridge'' ''0xc7c7f5b3'' ''0xpool0'' ''0'')))
     = Inr \<lparr>sendParam = maxSendParam, fee = maxFee, refundAddress = quotedRefund\<rparr>"
    by (simp add: mkStep_def inconsistentEnv_simps inconsistent_first_decode)
  have vdI: "decodeStargateCalldata (codec inconsistentEnv)
       (encodeStargateCalldata (codec inconsistentEnv) maxSendParam maxFee customRefundAddress)
     = Inr \<lparr>sendParam = quotedParam, fee = quotedFee, refundAddress = quotedRefund\<rparr>"
    by (simp add: inconsistentEnv_simps inconsistent_encode inconsistent_second_decode)
  have bigI: "bigInt inconsistentEnv ''0'' = Inr 0"
    by (simp add: inconsistentEnv_simps decimalBigInt_def)
  have premI: "decodeStargateCalldata (codec inconsistentEnv)
       (encodeStargateCalldata (codec inconsistentEnv)
          (sendParam \<lparr>sendParam = maxSendParam, fee = maxFee, refundAddress = quotedRefund\<rparr>)
          (fee \<lparr>sendParam = maxSendParam, fee = maxFee, refundAddress = quotedRefund\<rparr>)
          customRefundAddress)
       = Inr \<lparr>sendParam = quotedParam, fee = quotedFee, refundAddress = quotedRefund\<rparr> \<and>
     bigInt inconsistentEnv
       (tx_value (transaction (mkStep ''bridge'' ''0xc7c7f5b3'' ''0xpool0'' ''0''))) = Inr 0"
    using vdI bigI by (simp add: mkStep_def)
  note third = verification_is_not_enforced [OF rts before [of inconsistentEnv]
      classify_approveTruncatedRoute apprI decI,
      where vd = "\<lparr>sendParam = quotedParam, fee = quotedFee, refundAddress = quotedRefund\<rparr>"
        and v = 0, THEN conjunct2, THEN conjunct2, THEN conjunct1, THEN mp, OF premI,
      THEN conjunct2]
  have w2: "\<exists>rest. fst (processRoute inconsistentEnv [] approveTruncatedRoute)
             = approvalLog @ SendTransaction \<lparr>req_to = ''0xpool0'', req_value = Some 0,
                                              req_data = ''0xc7c7f5b3ff''\<rparr> # rest"
    using third by (simp add: mkStep_def inconsistentEnv_simps inconsistent_encode)
  have rtsB: "filter isStargateRoute [badValueRoute, route2] = [] @ badValueRoute # [route2]"
    by (simp add: stargate_routes more_stargate_routes)
  have apprB: "handleApproval (client inconsistentEnv) [] None = ([], Inr ())"
    by (simp add: handleApproval_def)
  have decB: "decodeStargateCalldata (codec inconsistentEnv)
               (tx_data (transaction (mkStep ''bridge'' ''0xc7c7f5b3'' ''0xpool0'' ''1e18'')))
     = Inr \<lparr>sendParam = maxSendParam, fee = maxFee, refundAddress = quotedRefund\<rparr>"
    by (simp add: mkStep_def inconsistentEnv_simps inconsistent_first_decode)
  have bigB: "bigInt inconsistentEnv ''1e18'' = Inl (External ''SyntaxError'')"
    by (simp add: inconsistentEnv_simps decimalBigInt_1e18)
  from verification_is_not_enforced [OF rtsB before [of inconsistentEnv] classify_badValueRoute
      apprB decB,
      where vd = "\<lparr>sendParam = quotedParam, fee = quotedFee, refundAddress = quotedRefund\<rparr>"
        and e = "External ''SyntaxError''"] vdI bigB
  have w3: "main inconsistentEnv [badValueRoute, route2]
     = \<lparr>events = [], outcomes = [], failure = Some (External ''SyntaxError''), exitCode = 1\<rparr>"
    by (simp add: mkStep_def)
  from rts ok_approval vdL w1 vdI bigI w2 bigB w3 show ?thesis
    by (intro conjI) (simp_all only: simp_thms)
qed

end
